theory Spec2Isabelle
  imports Complex_Main
begin

chapter \<open>GasGuard: the sensor-to-actuator control loop\<close>

text \<open>
  A shallow embedding of the JavaScript sources of the detector: the gas sensor
  conversion (\<^verbatim>\<open>GasSensor\<close>), the sensor fusion and alert level of
  \<^verbatim>\<open>HardwareManager\<close>, the notification gate (\<^verbatim>\<open>AlertManager\<close>), the
  per-pin write queue (\<^verbatim>\<open>GPIOQueue\<close>) and the position service
  (\<^verbatim>\<open>GPSAsync\<close>).

  JavaScript numbers are IEEE doubles. They are modelled by \<^typ>\<open>real\<close> where the
  source computes with fractions (ppm, volts, ohms, hdop) and by \<^typ>\<open>int\<close> where it
  counts or reads the clock (\<^verbatim>\<open>Date.now()\<close>, milliseconds). Rounding of doubles and the
  values NaN and Infinity are outside the model.
\<close>

section \<open>GasSensor\<close>

text \<open>\<^verbatim>\<open>this.type\<close> is a string; the source distinguishes 'MQ6', 'MQ2' and anything else.\<close>

datatype sensor_type = MQ2 | MQ6 | OtherType

record sensor_params =
  sensitivity :: real
  loadResistance :: real

text \<open>\<^verbatim>\<open>getSensorParams\<close>: \<^verbatim>\<open>params[type] || params.MQ2\<close>; both entries carry sensitivity 0.3.\<close>

definition getSensorParams :: "sensor_type \<Rightarrow> sensor_params" where
  "getSensorParams t =
     (case t of
        MQ2 \<Rightarrow> \<lparr>sensitivity = 0.3, loadResistance = 5\<rparr>
      | MQ6 \<Rightarrow> \<lparr>sensitivity = 0.3, loadResistance = 5\<rparr>
      | OtherType \<Rightarrow> \<lparr>sensitivity = 0.3, loadResistance = 5\<rparr>)"

record gas_sensor =
  stype :: sensor_type
  channel :: nat
  isInitialized :: bool
  isPreheated :: bool
  ro :: real
  sensorParams :: sensor_params

text \<open>The constructor: \<^verbatim>\<open>calibration.ro = 5000\<close>, not initialised, not preheated.\<close>

definition new_GasSensor :: "sensor_type \<Rightarrow> nat \<Rightarrow> gas_sensor" where
  "new_GasSensor t ch =
     \<lparr>stype = t, channel = ch, isInitialized = False, isPreheated = False,
      ro = 5000, sensorParams = getSensorParams t\<rparr>"


text \<open>
  The curve \<^verbatim>\<open>a / Math.pow(ratio, b)\<close> of \<^verbatim>\<open>calculatePPM\<close>, before the clamp. It is
  evaluated only for \<^verbatim>\<open>ratio > 0\<close>, where \<^verbatim>\<open>Math.pow\<close> is \<^term>\<open>(powr)\<close>. For a
  type that is neither 'MQ6' nor 'MQ2' the variable \<^verbatim>\<open>ppm\<close> keeps its initial 0.
\<close>

definition curve :: "sensor_type \<Rightarrow> real \<Rightarrow> real" where
  "curve t ratio =
     (case t of
        MQ6 \<Rightarrow> 1000 / (ratio powr 2.5)
      | MQ2 \<Rightarrow> 800 / (ratio powr 2.2)
      | OtherType \<Rightarrow> 0)"

definition calculatePPM :: "gas_sensor \<Rightarrow> real \<Rightarrow> real" where
  "calculatePPM s resistance =
     (if resistance \<le> 0 \<or> resistance \<ge> 1000000 then 0
      else let ratio = resistance / ro s in
        if ratio \<le> 0 then 0
        else max 0 (min 10000 (curve (stype s) ratio)))"


text \<open>The ADC is an injected collaborator: \<^verbatim>\<open>readChannel\<close> returns a sample or throws.\<close>

record adc_reading =
  adc_raw :: int
  adc_voltage :: real

text \<open>
  The sample \<^verbatim>\<open>MCP3008.readChannel\<close> builds from the 10-bit count of the converter
  (\<^verbatim>\<open>resolution = 1024\<close>, \<^verbatim>\<open>referenceVoltage = 3.3\<close>):
  \<^verbatim>\<open>voltage: (rawValue / this.resolution) * this.referenceVoltage\<close>.
\<close>

definition mcp3008_reading :: "int \<Rightarrow> adc_reading" where
  "mcp3008_reading rawValue =
     \<lparr>adc_raw = rawValue, adc_voltage = (of_int rawValue / 1024) * 3.3\<rparr>"

datatype adc_error = AdcFailure

datatype read_error = NotInitialized | StillPreheating | FailedToRead

record sensor_reading =
  raw :: int
  voltage :: real
  resistance :: real
  ppm :: real
  preheated :: bool


section \<open>HardwareManager: sensor fusion and alert level\<close>

datatype gas_type = LPG_Butane | LPG_Propane | Smoke_Fire | Other_Gases | Clean_Air

datatype risk_level = HIGH | MEDIUM | LOW | MINIMAL

datatype agreement_level = PERFECT | EXCELLENT | GOOD | FAIR | POOR | DISAGREEMENT

datatype contribution = C_HIGH | C_MEDIUM | C_LOW | C_NONE

datatype recommendation =
  IMMEDIATE_EVACUATION | INVESTIGATE_SOURCE | MONITOR_CLOSELY | VERIFY_READING | NORMAL_OPERATION

datatype alert_level = normal | low | critical

text \<open>What the fusion reads of a sensor's data: \<^verbatim>\<open>{ raw, ppm }\<close>.\<close>

record sensor_data =
  sd_raw :: int
  sd_ppm :: real

record fused_data =
  f_timestamp :: int
  maxPpm :: real
  avgPpm :: real
  minPpm :: real
  gasType :: gas_type
  confidence :: real
  riskLevel :: risk_level
  agreement :: agreement_level
  mq6Contribution :: contribution
  mq2Contribution :: contribution
  f_recommendation :: recommendation

definition detectGasType :: "sensor_data \<Rightarrow> sensor_data \<Rightarrow> gas_type" where
  "detectGasType mq6Data mq2Data =
     (let mq6Ratio = sd_ppm mq6Data / max (sd_ppm mq2Data) 1;
          mq2Ratio = sd_ppm mq2Data / max (sd_ppm mq6Data) 1
      in if mq6Ratio > 1.5 \<and> sd_ppm mq6Data > 50 then LPG_Butane
         else if mq2Ratio > 2.0 \<and> sd_ppm mq2Data > 30 then Smoke_Fire
         else if sd_ppm mq6Data > 20 \<and> sd_ppm mq2Data > 20 then LPG_Propane
         else if sd_ppm mq2Data > 10 \<and> sd_ppm mq6Data < 10 then Other_Gases
         else Clean_Air)"

definition calculateConfidence :: "sensor_data \<Rightarrow> sensor_data \<Rightarrow> real" where
  "calculateConfidence mq6Data mq2Data =
     (let mx = max (sd_ppm mq6Data) (sd_ppm mq2Data);
          mn = min (sd_ppm mq6Data) (sd_ppm mq2Data);
          c1 = (if mx > 100 then 40 else if mx > 50 then 30
                else if mx > 20 then 20 else if mx > 5 then 10 else 0);
          c2 = (if mn > 5 \<and> mx > 0 then c1 + (mn / mx) * 30 else c1);
          c3 = (if mx > 200 then c2 + 20 else c2)
      in min 100 (max 0 c3))"

definition riskMultipliers :: "gas_type \<Rightarrow> real" where
  "riskMultipliers g =
     (case g of LPG_Butane \<Rightarrow> 1.2 | LPG_Propane \<Rightarrow> 1.1 | Smoke_Fire \<Rightarrow> 1.5
              | Other_Gases \<Rightarrow> 0.8 | Clean_Air \<Rightarrow> 0.1)"

definition assessRisk :: "sensor_data \<Rightarrow> sensor_data \<Rightarrow> gas_type \<Rightarrow> risk_level" where
  "assessRisk mq6Data mq2Data g =
     (let mx = max (sd_ppm mq6Data) (sd_ppm mq2Data);
          baseRisk = mx * riskMultipliers g
      in if baseRisk > 300 then HIGH
         else if baseRisk > 150 then MEDIUM
         else if baseRisk > 50 then LOW
         else MINIMAL)"

definition analyzeSensorAgreement :: "sensor_data \<Rightarrow> sensor_data \<Rightarrow> agreement_level" where
  "analyzeSensorAgreement mq6Data mq2Data =
     (let mx = max (sd_ppm mq6Data) (sd_ppm mq2Data);
          mn = min (sd_ppm mq6Data) (sd_ppm mq2Data)
      in if mx = 0 then PERFECT
         else let a = mn / mx
              in if a > 0.8 then EXCELLENT
                 else if a > 0.6 then GOOD
                 else if a > 0.4 then FAIR
                 else if a > 0.2 then POOR
                 else DISAGREEMENT)"

definition calculateSensorContribution :: "sensor_data \<Rightarrow> bool \<Rightarrow> contribution" where
  "calculateSensorContribution d is_mq6 =
     (let p = sd_ppm d
      in if is_mq6 then
           (if p > 100 then C_HIGH else if p > 50 then C_MEDIUM
            else if p > 20 then C_LOW else C_NONE)
         else
           (if p > 80 then C_HIGH else if p > 40 then C_MEDIUM
            else if p > 15 then C_LOW else C_NONE))"

definition generateRecommendation :: "gas_type \<Rightarrow> risk_level \<Rightarrow> real \<Rightarrow> recommendation" where
  "generateRecommendation g r c =
     (if r = HIGH \<and> c > 70 then IMMEDIATE_EVACUATION
      else if r = MEDIUM \<and> c > 60 then INVESTIGATE_SOURCE
      else if r = LOW \<and> c > 50 then MONITOR_CLOSELY
      else if c < 30 then VERIFY_READING
      else NORMAL_OPERATION)"

definition evaluateSensorData :: "int \<Rightarrow> sensor_data \<Rightarrow> sensor_data \<Rightarrow> fused_data" where
  "evaluateSensorData now mq6Data mq2Data =
     (let g = detectGasType mq6Data mq2Data;
          c = calculateConfidence mq6Data mq2Data;
          r = assessRisk mq6Data mq2Data g
      in \<lparr>f_timestamp = now,
          maxPpm = max (sd_ppm mq6Data) (sd_ppm mq2Data),
          avgPpm = (sd_ppm mq6Data + sd_ppm mq2Data) / 2,
          minPpm = min (sd_ppm mq6Data) (sd_ppm mq2Data),
          gasType = g,
          confidence = c,
          riskLevel = r,
          agreement = analyzeSensorAgreement mq6Data mq2Data,
          mq6Contribution = calculateSensorContribution mq6Data True,
          mq2Contribution = calculateSensorContribution mq2Data False,
          f_recommendation = generateRecommendation g r c\<rparr>)"

text \<open>\<^verbatim>\<open>this.alertLevels\<close>: the lower bounds of the bands \<^verbatim>\<open>low\<close> and \<^verbatim>\<open>critical\<close>.\<close>

record alert_levels =
  low_min :: real
  critical_min :: real

definition default_alertLevels :: alert_levels where
  "default_alertLevels = \<lparr>low_min = 100, critical_min = 300\<rparr>"

definition determineAlertLevel :: "alert_levels \<Rightarrow> real \<Rightarrow> alert_level" where
  "determineAlertLevel al p =
     (if p \<ge> critical_min al then critical
      else if p \<ge> low_min al then low
      else normal)"

definition determineSmartAlertLevel :: "alert_levels \<Rightarrow> fused_data \<Rightarrow> alert_level" where
  "determineSmartAlertLevel al fusedData =
     (if confidence fusedData > 70 \<and> riskLevel fusedData = HIGH then critical
      else if confidence fusedData > 50 \<and> riskLevel fusedData = MEDIUM then low
      else if maxPpm fusedData > 200 \<and> agreement fusedData = EXCELLENT then critical
      else if maxPpm fusedData > 100 \<and> agreement fusedData = GOOD then low
      else determineAlertLevel al (maxPpm fusedData))"

subsection \<open>The poll tick: \<^verbatim>\<open>readSensorData\<close>\<close>

record stored_reading =
  st_raw :: int
  st_ppm :: real
  st_timestamp :: "int option"

record hardware_manager =
  hm_isInitialized :: bool
  sensorData_mq6 :: "stored_reading option"
  sensorData_mq2 :: "stored_reading option"
  sensorData_fused :: "fused_data option"
  alertLevels :: alert_levels
  currentAlertLevel :: alert_level
  lastUpdate :: "int option"

text \<open>The constructor: both stored readings are \<^verbatim>\<open>{ raw: 0, ppm: 0, timestamp: null }\<close>.\<close>

definition new_HardwareManager :: hardware_manager where
  "new_HardwareManager =
     \<lparr>hm_isInitialized = False,
      sensorData_mq6 = Some \<lparr>st_raw = 0, st_ppm = 0, st_timestamp = None\<rparr>,
      sensorData_mq2 = Some \<lparr>st_raw = 0, st_ppm = 0, st_timestamp = None\<rparr>,
      sensorData_fused = None,
      alertLevels = default_alertLevels,
      currentAlertLevel = normal,
      lastUpdate = None\<rparr>"

text \<open>
  What the collaborators answer during one tick: the \<^verbatim>\<open>preheated\<close> flags of
  \<^verbatim>\<open>getCalibrationInfo()\<close>, the two raw samples of the preheating branch, and the
  results of \<^verbatim>\<open>mq6.read()\<close> and \<^verbatim>\<open>mq2.read()\<close> (a reading, or a thrown error).
\<close>

record tick_inputs =
  mq6_preheated :: bool
  mq2_preheated :: bool
  adc0 :: "adc_error + adc_reading"
  adc1 :: "adc_error + adc_reading"
  mq6_read :: "read_error + sensor_reading"
  mq2_read :: "read_error + sensor_reading"

datatype tick_outcome = NotInitializedYet | Aborted | Preheating | Evaluated

text \<open>
  The result of a tick: the manager, how the tick ended, and the alert level change
  handed to \<^verbatim>\<open>handleAlertLevelChange(newLevel, previousLevel, maxPpm)\<close>, if any.
  The test \<^verbatim>\<open>!mq6Status.preheated || !mq2Status.preheated\<close> is written as the
  negation of a conjunction.
\<close>

record tick_result =
  tr_hm :: hardware_manager
  tr_outcome :: tick_outcome
  tr_change :: "(alert_level \<times> alert_level \<times> real) option"

definition zero_data :: sensor_data where
  "zero_data = \<lparr>sd_raw = 0, sd_ppm = 0\<rparr>"

definition data_of :: "sensor_reading \<Rightarrow> sensor_data" where
  "data_of r = \<lparr>sd_raw = raw r, sd_ppm = ppm r\<rparr>"

definition store_of :: "int \<Rightarrow> sensor_reading \<Rightarrow> stored_reading" where
  "store_of now r = \<lparr>st_raw = raw r, st_ppm = ppm r, st_timestamp = Some now\<rparr>"

text \<open>
  The \<^verbatim>\<open>catch\<close> of a channel read: \<^verbatim>\<open>if (!this.sensorData.mq6) this.sensorData.mq6 = zeros\<close>.
\<close>

definition keep_or_zero :: "int \<Rightarrow> stored_reading option \<Rightarrow> stored_reading option" where
  "keep_or_zero now st =
     (case st of None \<Rightarrow> Some \<lparr>st_raw = 0, st_ppm = 0, st_timestamp = Some now\<rparr>
               | Some x \<Rightarrow> Some x)"

definition readSensorData :: "int \<Rightarrow> tick_inputs \<Rightarrow> hardware_manager \<Rightarrow> tick_result" where
  "readSensorData now inp hm =
     (if \<not> hm_isInitialized hm then
        \<lparr>tr_hm = hm, tr_outcome = NotInitializedYet, tr_change = None\<rparr>
      else if \<not> (mq6_preheated inp \<and> mq2_preheated inp) then
        (case adc0 inp of
           Inl e \<Rightarrow> \<lparr>tr_hm = hm, tr_outcome = Aborted, tr_change = None\<rparr>
         | Inr mq6Raw \<Rightarrow>
             (case adc1 inp of
                Inl e \<Rightarrow> \<lparr>tr_hm = hm, tr_outcome = Aborted, tr_change = None\<rparr>
              | Inr mq2Raw \<Rightarrow>
                  \<lparr>tr_hm = hm
                     \<lparr>sensorData_mq6 :=
                        Some \<lparr>st_raw = adc_raw mq6Raw, st_ppm = 0, st_timestamp = Some now\<rparr>,
                      sensorData_mq2 :=
                        Some \<lparr>st_raw = adc_raw mq2Raw, st_ppm = 0, st_timestamp = Some now\<rparr>,
                      currentAlertLevel := normal,
                      lastUpdate := Some now\<rparr>,
                   tr_outcome = Preheating, tr_change = None\<rparr>))
      else
        let mq6Data = (case mq6_read inp of Inr r \<Rightarrow> data_of r | Inl e \<Rightarrow> zero_data);
            st6 = (case mq6_read inp of Inr r \<Rightarrow> Some (store_of now r)
                                      | Inl e \<Rightarrow> keep_or_zero now (sensorData_mq6 hm));
            mq2Data = (case mq2_read inp of Inr r \<Rightarrow> data_of r | Inl e \<Rightarrow> zero_data);
            st2 = (case mq2_read inp of Inr r \<Rightarrow> Some (store_of now r)
                                      | Inl e \<Rightarrow> keep_or_zero now (sensorData_mq2 hm));
            fusedData = evaluateSensorData now mq6Data mq2Data;
            newAlertLevel = determineSmartAlertLevel (alertLevels hm) fusedData;
            changed = (newAlertLevel \<noteq> currentAlertLevel hm)
        in \<lparr>tr_hm = hm
               \<lparr>sensorData_mq6 := st6, sensorData_mq2 := st2,
                sensorData_fused := Some fusedData,
                currentAlertLevel := newAlertLevel,
                lastUpdate := Some now\<rparr>,
            tr_outcome = Evaluated,
            tr_change = (if changed
                         then Some (newAlertLevel, currentAlertLevel hm, maxPpm fusedData)
                         else None)\<rparr>)"

section \<open>AlertManager: the notification gate\<close>

record detection_state =
  level :: alert_level
  startTime :: "int option"
  duration :: int
  smsTriggered :: bool
  lastSMSTime :: "int option"
  detectionCount :: nat

text \<open>What \<^verbatim>\<open>triggerSMSAlert\<close> reads of the \<^verbatim>\<open>sensorData\<close> it was started with.\<close>

record gps_snapshot =
  g_latitude :: "real option"
  g_longitude :: "real option"
  g_lastKnown :: "(real option \<times> real option) option"
  g_locationAge :: "string option"

record alert_snapshot =
  a_gasType :: "gas_type option"
  a_mq6_ppm :: "real option"
  a_mq2_ppm :: "real option"
  a_gpsData :: "gps_snapshot option"

text \<open>
  The pending \<^verbatim>\<open>setTimeout\<close> of \<^verbatim>\<open>startPersistenceTimer\<close>: when it is due and the
  arguments its callback passes to \<^verbatim>\<open>triggerSMSAlert\<close>.
\<close>

record persistence_timer =
  t_due :: int
  t_level :: alert_level
  t_data :: alert_snapshot

text \<open>
  \<^verbatim>\<open>triggerSMSAlert\<close> is asynchronous: a call that has handed its alert to
  \<^verbatim>\<open>sendGasLeakAlert\<close> is parked at that \<^verbatim>\<open>await\<close> until the send settles, and
  \<^verbatim>\<open>updateAlertLevel\<close> can run in between. Besides the fields of the object the
  state of the manager therefore holds \<open>pending_sends\<close>, the number of calls parked at
  the send.
\<close>

record alert_manager =
  detectionState :: detection_state
  SMS_TRIGGER_DELAY :: int
  SMS_COOLDOWN :: int
  persistenceTimer :: "persistence_timer option"
  pending_sends :: nat






text \<open>
  The collaborators of \<^verbatim>\<open>triggerSMSAlert\<close>: the SMS service, the settings and the
  contacts. \<open>db_throws\<close> says that one of the database calls
  (\<^verbatim>\<open>Settings.getByUserId\<close>, \<^verbatim>\<open>Contact.getInternalContacts\<close>,
  \<^verbatim>\<open>Contact.getExternalContacts\<close>) throws.
\<close>

record settings =
  address :: "string option"
  landmark :: "string option"
  full_name :: "string option"
  phone :: "string option"

datatype contact_type = Profile | Internal | External

record contact =
  c_type :: contact_type
  c_name :: string
  c_phone :: string

record sms_env =
  isConfigured :: bool
  db_throws :: bool
  profile_settings :: "settings option"
  internalContacts :: "contact list"
  externalContacts :: "contact list"

datatype location =
  Unknown_location
  | GPS_current real real
  | GPS_last_known real real "string option"
  | Manual_address string "string option"

record dispatch =
  d_contacts :: "contact list"
  d_level :: alert_level
  d_location :: location

text \<open>JavaScript truthiness of a number that may be \<^verbatim>\<open>null\<close>, and of a string.\<close>

definition truthy_num :: "real option \<Rightarrow> bool" where
  "truthy_num x = (case x of None \<Rightarrow> False | Some v \<Rightarrow> v \<noteq> 0)"

definition truthy_time :: "int option \<Rightarrow> bool" where
  "truthy_time x = (case x of None \<Rightarrow> False | Some v \<Rightarrow> v \<noteq> 0)"

definition truthy_str :: "string option \<Rightarrow> bool" where
  "truthy_str x = (case x of None \<Rightarrow> False | Some v \<Rightarrow> v \<noteq> [])"

definition choose_location :: "alert_snapshot \<Rightarrow> settings option \<Rightarrow> location" where
  "choose_location sd st =
     (let g = a_gpsData sd;
          lat = (case g of None \<Rightarrow> None | Some x \<Rightarrow> g_latitude x);
          lng = (case g of None \<Rightarrow> None | Some x \<Rightarrow> g_longitude x);
          lk = (case g of None \<Rightarrow> None | Some x \<Rightarrow> g_lastKnown x);
          lklat = (case lk of None \<Rightarrow> None | Some (a, b) \<Rightarrow> a);
          lklng = (case lk of None \<Rightarrow> None | Some (a, b) \<Rightarrow> b)
      in if truthy_num lat \<and> truthy_num lng then GPS_current (the lat) (the lng)
         else if truthy_num lklat \<and> truthy_num lklng then
           GPS_last_known (the lklat) (the lklng)
             (case g of None \<Rightarrow> None
                      | Some x \<Rightarrow> if truthy_str (g_locationAge x) then g_locationAge x else None)
         else case st of
                None \<Rightarrow> Unknown_location
              | Some s \<Rightarrow>
                  if truthy_str (address s)
                  then Manual_address (the (address s))
                         (if truthy_str (landmark s) then landmark s else None)
                  else Unknown_location)"

definition profile_contact :: "settings option \<Rightarrow> contact list" where
  "profile_contact st =
     (case st of
        None \<Rightarrow> []
      | Some s \<Rightarrow>
          if truthy_str (phone s)
          then [\<lparr>c_type = Profile,
                 c_name = (if truthy_str (full_name s) then the (full_name s)
                           else ''Profile Contact''),
                 c_phone = the (phone s)\<rparr>]
          else [])"

definition select_contacts :: "sms_env \<Rightarrow> alert_level \<Rightarrow> contact list" where
  "select_contacts env lvl =
     (case lvl of
        low \<Rightarrow> profile_contact (profile_settings env) @ internalContacts env
      | critical \<Rightarrow>
          profile_contact (profile_settings env) @ internalContacts env @ externalContacts env
      | normal \<Rightarrow> [])"

text \<open>
  \<^verbatim>\<open>triggerSMSAlert(level, sensorData)\<close> up to its call of \<^verbatim>\<open>sendGasLeakAlert\<close>;
  \<open>now\<close> is \<^verbatim>\<open>Date.now()\<close> at the cooldown check. The three tests of the gate read
  \<^verbatim>\<open>this.detectionState\<close> before the first \<^verbatim>\<open>await\<close>; the database calls that
  follow read nothing of the manager, so what runs while they are awaited does not
  change what this call does. A database call that throws is caught by the outer
  \<^verbatim>\<open>catch\<close>: nothing is sent and nothing is marked. The result is the manager and the
  alert handed to \<^verbatim>\<open>sendGasLeakAlert\<close>, if the gate let one through; the call is then
  parked at the send.
\<close>

definition triggerSMSAlert ::
  "sms_env \<Rightarrow> int \<Rightarrow> alert_level \<Rightarrow> alert_snapshot \<Rightarrow> alert_manager
     \<Rightarrow> alert_manager \<times> dispatch option" where
  "triggerSMSAlert env now lvl sd am =
     (if smsTriggered (detectionState am) then (am, None)
      else if truthy_time (lastSMSTime (detectionState am)) \<and>
              now - the (lastSMSTime (detectionState am)) < SMS_COOLDOWN am then (am, None)
      else if \<not> isConfigured env then (am, None)
      else if db_throws env then (am, None)
      else let loc = choose_location sd (profile_settings env);
               contacts = select_contacts env lvl
           in if contacts = [] then (am, None)
              else (am\<lparr>pending_sends := Suc (pending_sends am)\<rparr>,
                    Some \<lparr>d_contacts = contacts, d_level = lvl, d_location = loc\<rparr>))"



section \<open>GPIOQueue: the per-pin write queue\<close>

text \<open>
  \<^verbatim>\<open>enqueue\<close> and \<^verbatim>\<open>processQueue\<close> are asynchronous. JavaScript runs them on one
  thread: a call runs until it reaches an \<^verbatim>\<open>await\<close>, parks there, and is resumed by
  the event loop when the awaited timer fires or the awaited hardware write settles. The
  model is the event loop's view: a state of the queue object, the continuations of
  \<^verbatim>\<open>processQueue\<close> that are parked at an \<^verbatim>\<open>await\<close>, a clock, and a step for each thing
  the event loop can do. The operation objects live in a store, since the queue and a
  parked continuation refer to the same object.
\<close>

record operation =
  op_pin :: nat
  op_val :: nat
  op_timeout :: nat
  retries :: nat
  maxRetries :: nat

text \<open>
  The three \<^verbatim>\<open>await\<close>s of \<^verbatim>\<open>processQueue\<close>: the minimum-delay timer (with the time it
  is due), the hardware write \<^verbatim>\<open>executeOperation\<close>, and the retry timer.
\<close>

datatype await_point = AwaitDelay int | AwaitExec | AwaitBackoff int

text \<open>A parked continuation: the \<^verbatim>\<open>operation\<close> it holds and where it waits.\<close>

record worker =
  w_op :: nat
  w_at :: await_point

text \<open>What the queue did, newest first: the observable events of a run, with their times.\<close>

datatype log_event =
  Enqueued nat nat int
  | WriteStart nat nat int
  | WriteEnd nat nat int bool
  | Resolved nat nat int
  | Rejected nat nat int

record gpio_queue =
  queues :: "nat \<Rightarrow> nat list option"
  processing :: "nat \<Rightarrow> bool option"
  lastOperation :: "nat \<Rightarrow> int option"
  minDelay :: int
  ops :: "nat \<Rightarrow> operation option"
  next_op :: nat
  workers :: "nat \<Rightarrow> worker list"
  clock :: int
  trace :: "log_event list"

definition new_GPIOQueue :: "int \<Rightarrow> gpio_queue" where
  "new_GPIOQueue t0 =
     \<lparr>queues = (\<lambda>p. None), processing = (\<lambda>p. None), lastOperation = (\<lambda>p. None),
      minDelay = 100, ops = (\<lambda>i. None), next_op = 0, workers = (\<lambda>p. []),
      clock = t0, trace = []\<rparr>"

definition queue_of :: "gpio_queue \<Rightarrow> nat \<Rightarrow> nat list" where
  "queue_of s p = (case queues s p of None \<Rightarrow> [] | Some q \<Rightarrow> q)"

definition emit :: "log_event \<Rightarrow> gpio_queue \<Rightarrow> gpio_queue" where
  "emit e s = s\<lparr>trace := e # trace s\<rparr>"

text \<open>\<^verbatim>\<open>queue.shift()\<close>: drops the first element; nothing happens on an empty array.\<close>

definition shift :: "nat \<Rightarrow> gpio_queue \<Rightarrow> gpio_queue" where
  "shift p s =
     (case queues s p of
        None \<Rightarrow> s
      | Some q \<Rightarrow> s\<lparr>queues := (queues s)(p := Some (tl q))\<rparr>)"

text \<open>How a run of \<^verbatim>\<open>processQueue\<close> between two \<^verbatim>\<open>await\<close>s ends.\<close>

datatype outcome = Parked worker | Finished

text \<open>
  \<^verbatim>\<open>await this.executeOperation(operation)\<close>: the write starts now and the
  continuation parks until it settles.
\<close>

definition start_exec :: "nat \<Rightarrow> nat \<Rightarrow> gpio_queue \<Rightarrow> gpio_queue \<times> outcome" where
  "start_exec p i s =
     (emit (WriteStart p i (clock s)) s, Parked \<lparr>w_op = i, w_at = AwaitExec\<rparr>)"

text \<open>
  From the loop test \<^verbatim>\<open>while (queue && queue.length > 0)\<close> to the next \<^verbatim>\<open>await\<close>, or
  to the end of \<^verbatim>\<open>processQueue\<close>.
\<close>

definition loop_head :: "nat \<Rightarrow> gpio_queue \<Rightarrow> gpio_queue \<times> outcome" where
  "loop_head p s =
     (case queue_of s p of
        [] \<Rightarrow> (s\<lparr>processing := (processing s)(p := Some False)\<rparr>, Finished)
      | i # rest \<Rightarrow>
          (let lastOp = (case lastOperation s p of None \<Rightarrow> 0 | Some t \<Rightarrow> t);
               timeSinceLast = clock s - lastOp
           in if timeSinceLast < minDelay s
              then (s, Parked \<lparr>w_op = i,
                               w_at = AwaitDelay (clock s + (minDelay s - timeSinceLast))\<rparr>)
              else start_exec p i s))"

text \<open>The hardware write of the parked continuation succeeded.\<close>

definition exec_succeeded :: "nat \<Rightarrow> nat \<Rightarrow> gpio_queue \<Rightarrow> gpio_queue \<times> outcome" where
  "exec_succeeded p i s =
     (let s1 = emit (WriteEnd p i (clock s) True) s;
          s2 = s1\<lparr>lastOperation := (lastOperation s1)(p := Some (clock s1))\<rparr>;
          s3 = emit (Resolved p i (clock s2)) s2;
          s4 = shift p s3
      in loop_head p s4)"

text \<open>
  The hardware write threw: the \<^verbatim>\<open>catch\<close> block. The continuation always holds an
  operation object; a number with no object in the store names none, and nothing happens.
\<close>

definition exec_failed :: "nat \<Rightarrow> nat \<Rightarrow> gpio_queue \<Rightarrow> gpio_queue \<times> outcome" where
  "exec_failed p i s =
     (case ops s i of
        None \<Rightarrow> (s, Parked \<lparr>w_op = i, w_at = AwaitExec\<rparr>)
      | Some operation \<Rightarrow>
          (let s1 = emit (WriteEnd p i (clock s) False) s;
               operation' = operation\<lparr>retries := retries operation + 1\<rparr>;
               s2 = s1\<lparr>ops := (ops s1)(i := Some operation')\<rparr>
           in if retries operation' < maxRetries operation'
              then (s2, Parked \<lparr>w_op = i, w_at = AwaitBackoff (clock s2 + 100)\<rparr>)
              else loop_head p (shift p (emit (Rejected p i (clock s2)) s2))))"

definition set_worker :: "nat \<Rightarrow> nat \<Rightarrow> gpio_queue \<times> outcome \<Rightarrow> gpio_queue" where
  "set_worker p k r =
     (case r of
        (s, Parked w) \<Rightarrow> s\<lparr>workers := (workers s)(p := (workers s p)[k := w])\<rparr>
      | (s, Finished) \<Rightarrow>
          s\<lparr>workers := (workers s)(p := take k (workers s p) @ drop (Suc k) (workers s p))\<rparr>)"

text \<open>\<^verbatim>\<open>processQueue(pin)\<close>, from its call to its first \<^verbatim>\<open>await\<close>.\<close>

definition processQueue :: "nat \<Rightarrow> gpio_queue \<Rightarrow> gpio_queue" where
  "processQueue p s =
     (case loop_head p (s\<lparr>processing := (processing s)(p := Some True)\<rparr>) of
        (s1, Parked w) \<Rightarrow> s1\<lparr>workers := (workers s1)(p := workers s1 p @ [w])\<rparr>
      | (s1, Finished) \<Rightarrow> s1)"

text \<open>
  \<^verbatim>\<open>enqueue(pin, value, timeout)\<close>. The promise it returns is named by the number of
  the operation; \<^verbatim>\<open>Resolved\<close> and \<^verbatim>\<open>Rejected\<close> in the trace settle it.
\<close>

definition enqueue :: "nat \<Rightarrow> nat \<Rightarrow> nat \<Rightarrow> gpio_queue \<Rightarrow> gpio_queue" where
  "enqueue p v t s =
     (let i = next_op s;
          operation = \<lparr>op_pin = p, op_val = v, op_timeout = t, retries = 0, maxRetries = 2\<rparr>;
          s1 = s\<lparr>ops := (ops s)(i := Some operation), next_op := Suc i\<rparr>;
          s2 = s1\<lparr>queues := (queues s1)(p := Some (queue_of s1 p @ [i]))\<rparr>;
          s3 = emit (Enqueued p i (clock s2)) s2
      in if processing s3 p = Some True then s3 else processQueue p s3)"

text \<open>
  What the event loop can do next: run a call of \<^verbatim>\<open>enqueue\<close>, let time pass, fire the
  timer of the \<open>k\<close>-th parked continuation of a pin, or settle its hardware write
  (\<^verbatim>\<open>True\<close>: the write succeeded). An event that is not possible in the state
  changes nothing.

  The clock of the model is \<^verbatim>\<open>Date.now()\<close>; it is \<^verbatim>\<open>Date.now()\<close> that
  \<^verbatim>\<open>processQueue\<close> reads and stores in \<^verbatim>\<open>lastOperation\<close>. \<^verbatim>\<open>setTimeout\<close> measures
  its delay on the timer clock of the runtime, which is not that clock: read on
  \<^verbatim>\<open>Date.now()\<close> a timer can fire any time after it is due, and also a little before.
  The third argument of \<open>TimerFires\<close> bounds how early the timer is, in milliseconds;
  with 0 the timer does not fire before it is due.
\<close>

datatype event =
  Enqueue nat nat nat
  | Tick nat
  | TimerFires nat nat nat
  | ExecDone nat nat bool

definition timer_fires :: "nat \<Rightarrow> nat \<Rightarrow> nat \<Rightarrow> gpio_queue \<Rightarrow> gpio_queue" where
  "timer_fires p k early s =
     (if k < length (workers s p) then
        (let w = workers s p ! k
         in case w_at w of
              AwaitDelay due \<Rightarrow>
                if due - int early \<le> clock s
                then set_worker p k (start_exec p (w_op w) s) else s
            | AwaitBackoff due \<Rightarrow>
                if due - int early \<le> clock s
                then set_worker p k (loop_head p s) else s
            | AwaitExec \<Rightarrow> s)
      else s)"

definition exec_done :: "nat \<Rightarrow> nat \<Rightarrow> bool \<Rightarrow> gpio_queue \<Rightarrow> gpio_queue" where
  "exec_done p k ok s =
     (if k < length (workers s p) then
        (let w = workers s p ! k
         in case w_at w of
              AwaitExec \<Rightarrow>
                set_worker p k
                  (if ok then exec_succeeded p (w_op w) s else exec_failed p (w_op w) s)
            | AwaitDelay due \<Rightarrow> s
            | AwaitBackoff due \<Rightarrow> s)
      else s)"

fun step :: "gpio_queue \<Rightarrow> event \<Rightarrow> gpio_queue" where
  "step s (Enqueue p v t) = enqueue p v t s"
| "step s (Tick d) = s\<lparr>clock := clock s + int d\<rparr>"
| "step s (TimerFires p k early) = timer_fires p k early s"
| "step s (ExecDone p k ok) = exec_done p k ok s"

definition run :: "gpio_queue \<Rightarrow> event list \<Rightarrow> gpio_queue" where
  "run s evs = foldl step s evs"

text \<open>How early a timer of a run fires at most; 0 for a run whose timers are never early.\<close>

fun earliness :: "event \<Rightarrow> nat" where
  "earliness (TimerFires p k early) = early"
| "earliness (Enqueue p v t) = 0"
| "earliness (Tick d) = 0"
| "earliness (ExecDone p k ok) = 0"

definition max_early :: "event list \<Rightarrow> nat" where
  "max_early evs = foldr (\<lambda>ev m. max (earliness ev) m) evs 0"

subsection \<open>Reading the trace of one pin\<close>

text \<open>The operations of a pin in the order they were submitted, and in the order they settled.\<close>

fun submitted :: "nat \<Rightarrow> log_event list \<Rightarrow> nat list" where
  "submitted p [] = []"
| "submitted p (Enqueued q i t # older) =
     (if q = p then submitted p older @ [i] else submitted p older)"
| "submitted p (e # older) = submitted p older"

fun settled :: "nat \<Rightarrow> log_event list \<Rightarrow> nat list" where
  "settled p [] = []"
| "settled p (Resolved q i t # older) =
     (if q = p then settled p older @ [i] else settled p older)"
| "settled p (Rejected q i t # older) =
     (if q = p then settled p older @ [i] else settled p older)"
| "settled p (e # older) = settled p older"

text \<open>The write that is in flight on a pin at the end of a trace, if any.\<close>

fun in_flight :: "nat \<Rightarrow> log_event list \<Rightarrow> nat option" where
  "in_flight p [] = None"
| "in_flight p (WriteStart q i t # older) = (if q = p then Some i else in_flight p older)"
| "in_flight p (WriteEnd q i t ok # older) = (if q = p then None else in_flight p older)"
| "in_flight p (e # older) = in_flight p older"

text \<open>
  One write at a time: every write of the pin starts when none is in flight there, and
  every end of a write is the end of the one in flight.
\<close>

fun serial :: "nat \<Rightarrow> log_event list \<Rightarrow> bool" where
  "serial p [] = True"
| "serial p (WriteStart q i t # older) =
     (if q = p then in_flight p older = None \<and> serial p older else serial p older)"
| "serial p (WriteEnd q i t ok # older) =
     (if q = p then in_flight p older = Some i \<and> serial p older else serial p older)"
| "serial p (e # older) = serial p older"

text \<open>The time at which the last successful write of a pin ended.\<close>

fun last_success :: "nat \<Rightarrow> log_event list \<Rightarrow> int option" where
  "last_success p [] = None"
| "last_success p (WriteEnd q i t ok # older) =
     (if q = p \<and> ok then Some t else last_success p older)"
| "last_success p (e # older) = last_success p older"

text \<open>
  Spacing: every write of the pin starts at least \<open>d\<close> ms after the end of the last
  successful write there.
\<close>

fun spaced :: "int \<Rightarrow> nat \<Rightarrow> log_event list \<Rightarrow> bool" where
  "spaced d p [] = True"
| "spaced d p (WriteStart q i t # older) =
     (if q = p
      then (case last_success p older of None \<Rightarrow> True | Some t0 \<Rightarrow> t0 + d \<le> t)
           \<and> spaced d p older
      else spaced d p older)"
| "spaced d p (e # older) = spaced d p older"

text \<open>The writes of a pin, in the order they started: whose operation each was.\<close>

fun writes :: "nat \<Rightarrow> log_event list \<Rightarrow> nat list" where
  "writes p [] = []"
| "writes p (WriteStart q i t # older) =
     (if q = p then writes p older @ [i] else writes p older)"
| "writes p (e # older) = writes p older"

subsection \<open>The invariant of a pin\<close>

text \<open>
  Every write of the pin is for the oldest operation of the pin that has not settled.
\<close>

fun head_writes :: "nat \<Rightarrow> log_event list \<Rightarrow> bool" where
  "head_writes p [] = True"
| "head_writes p (WriteStart q i t # older) =
     (if q = p
      then take 1 (drop (length (settled p older)) (submitted p older)) = [i]
           \<and> head_writes p older
      else head_writes p older)"
| "head_writes p (e # older) = head_writes p older"

text \<open>The time \<open>t\<close> is at least \<open>d\<close> ms after the last successful write of the pin.\<close>

definition after_last :: "int \<Rightarrow> nat \<Rightarrow> log_event list \<Rightarrow> int \<Rightarrow> bool" where
  "after_last d p tr t = (case last_success p tr of None \<Rightarrow> True | Some t0 \<Rightarrow> t0 + d \<le> t)"

text \<open>
  What holds while a continuation is parked: a write is in flight exactly when it waits
  for \<^verbatim>\<open>executeOperation\<close>, and a minimum-delay timer is never due before 100 ms
  have passed since the last successful write.
\<close>

fun at_ok :: "nat \<Rightarrow> log_event list \<Rightarrow> nat \<Rightarrow> await_point \<Rightarrow> bool" where
  "at_ok p tr i AwaitExec = (in_flight p tr = Some i)"
| "at_ok p tr i (AwaitDelay due) = (in_flight p tr = None \<and> after_last 100 p tr due)"
| "at_ok p tr i (AwaitBackoff due) = (in_flight p tr = None)"

text \<open>
  At most one continuation per pin; there is one exactly when \<^verbatim>\<open>processing\<close> holds
  \<^verbatim>\<open>true\<close> for the pin, and it holds the operation at the head of the queue.
\<close>

definition worker_ok :: "nat \<Rightarrow> gpio_queue \<Rightarrow> bool" where
  "worker_ok p s =
     (case workers s p of
        [] \<Rightarrow> processing s p \<noteq> Some True \<and> in_flight p (trace s) = None
      | [w] \<Rightarrow> processing s p = Some True \<and> take 1 (queue_of s p) = [w_op w]
               \<and> at_ok p (trace s) (w_op w) (w_at w)
      | w # w' # ws \<Rightarrow> False)"

text \<open>
  The trace and the queue agree: the operations that settled, followed by the queue, are
  the operations submitted; \<^verbatim>\<open>lastOperation\<close> is the end of the last successful write.
  The writes are spaced by 100 ms less \<open>j\<close>, the bound on how early a timer has fired.
\<close>

definition trace_ok :: "nat \<Rightarrow> nat \<Rightarrow> gpio_queue \<Rightarrow> bool" where
  "trace_ok j p s =
     (settled p (trace s) @ queue_of s p = submitted p (trace s)
      \<and> serial p (trace s) \<and> spaced (100 - int j) p (trace s) \<and> head_writes p (trace s)
      \<and> lastOperation s p = last_success p (trace s) \<and> minDelay s = 100)"

definition queue_inv :: "nat \<Rightarrow> nat \<Rightarrow> gpio_queue \<Rightarrow> bool" where
  "queue_inv j p s = (worker_ok p s \<and> trace_ok j p s)"

text \<open>The part of the trace and of the state that belongs to one pin.\<close>

fun pin_of :: "log_event \<Rightarrow> nat" where
  "pin_of (Enqueued q i t) = q"
| "pin_of (WriteStart q i t) = q"
| "pin_of (WriteEnd q i t ok) = q"
| "pin_of (Resolved q i t) = q"
| "pin_of (Rejected q i t) = q"

definition proj :: "nat \<Rightarrow> log_event list \<Rightarrow> log_event list" where
  "proj p tr = filter (\<lambda>e. pin_of e = p) tr"

definition view ::
  "nat \<Rightarrow> gpio_queue
     \<Rightarrow> nat list \<times> bool option \<times> int option \<times> worker list \<times> int \<times> log_event list" where
  "view p s =
     (queue_of s p, processing s p, lastOperation s p, workers s p, minDelay s,
      proj p (trace s))"

text \<open>How a run of \<^verbatim>\<open>processQueue\<close> up to its next \<^verbatim>\<open>await\<close> must leave the pin.\<close>

definition out_ok :: "nat \<Rightarrow> nat \<Rightarrow> gpio_queue \<times> outcome \<Rightarrow> bool" where
  "out_ok j p r =
     (trace_ok j p (fst r) \<and>
      (case snd r of
         Finished \<Rightarrow> processing (fst r) p \<noteq> Some True \<and> in_flight p (trace (fst r)) = None
       | Parked w \<Rightarrow> processing (fst r) p = Some True
                    \<and> take 1 (queue_of (fst r) p) = [w_op w]
                    \<and> at_ok p (trace (fst r)) (w_op w) (w_at w)))"

section \<open>GPSAsync: the position service\<close>

datatype signal_strength = sig_none | sig_poor | sig_fair | sig_good | sig_excellent

record current_data =
  latitude :: "real option"
  longitude :: "real option"
  altitude :: "real option"
  speed :: "real option"
  course :: "real option"
  cd_timestamp :: "int option"
  accuracy :: "real option"
  hdop :: "real option"
  satellites :: int
  has_fix :: bool
  fixQuality :: int

text \<open>
  The file of the last known location holds JSON. \<^verbatim>\<open>JIso t\<close> stands for the string
  that \<^verbatim>\<open>Date.prototype.toJSON\<close> writes for the instant \<open>t\<close> (milliseconds since the
  epoch, ISO 8601); \<^verbatim>\<open>new Date\<close> reads such a string back to the same instant. The
  text of the file is not modelled: \<^verbatim>\<open>JSON.parse\<close> of what \<^verbatim>\<open>JSON.stringify\<close> wrote is
  taken to give the same JSON value.
\<close>

datatype json =
  JNull | JBool bool | JNum real | JStr string | JIso int
  | JArr "json list" | JObj "(string \<times> json) list"

text \<open>
  A property of a JavaScript object in memory: a JSON value or a \<^verbatim>\<open>Date\<close>
  (\<^verbatim>\<open>DateV None\<close> is the invalid date).
\<close>

datatype jsval = Json json | DateV "int option"

type_synonym js_object = "(string \<times> jsval) list"

fun get_prop :: "string \<Rightarrow> (string \<times> 'a) list \<Rightarrow> 'a option" where
  "get_prop k [] = None"
| "get_prop k ((k', v) # rest) = (if k' = k then Some v else get_prop k rest)"

text \<open>Setting a property keeps its place among the keys, or adds it at the end.\<close>

fun set_prop :: "string \<Rightarrow> 'a \<Rightarrow> (string \<times> 'a) list \<Rightarrow> (string \<times> 'a) list" where
  "set_prop k v [] = [(k, v)]"
| "set_prop k v ((k', v') # rest) =
     (if k' = k then (k, v) # rest else (k', v') # set_prop k v rest)"

datatype disk_file = NoFile | Unparsable | Content json

record reconnect_timer =
  rt_delay :: int
  rt_due :: int

datatype gps_event = Ev_connected string | Ev_disconnected | Ev_data

record gps =
  currentData :: current_data
  lastKnownLocation :: "js_object option"
  gps_isInitialized :: bool
  isShuttingDown :: bool
  port :: "string option"
  parser :: bool
  isConnected :: bool
  connectionAttempts :: nat
  maxConnectionAttempts :: nat
  reconnectDelay :: int
  reconnectTimer :: "reconnect_timer option"
  signalStrength :: signal_strength
  acquisitionStartTime :: "int option"
  timeToFirstFix :: "int option"
  lastNMEATime :: "int option"
  pendingSaves :: nat
  emitted :: "gps_event list"

definition new_GPSAsync :: gps where
  "new_GPSAsync =
     \<lparr>currentData =
        \<lparr>latitude = None, longitude = None, altitude = None, speed = None, course = None,
         cd_timestamp = None, accuracy = None, hdop = None, satellites = 0,
         has_fix = False, fixQuality = 0\<rparr>,
      lastKnownLocation = None,
      gps_isInitialized = False,
      isShuttingDown = False,
      port = None,
      parser = False,
      isConnected = False,
      connectionAttempts = 0,
      maxConnectionAttempts = 10,
      reconnectDelay = 5000,
      reconnectTimer = None,
      signalStrength = sig_none,
      acquisitionStartTime = None,
      timeToFirstFix = None,
      lastNMEATime = None,
      pendingSaves = 0,
      emitted = []\<rparr>"

subsection \<open>Decoding a GGA sentence\<close>

text \<open>\<^verbatim>\<open>Math.round\<close> rounds to the nearest integer, a half upwards.\<close>

definition js_round :: "real \<Rightarrow> real" where
  "js_round x = of_int \<lfloor>x + 1/2\<rfloor>"

definition calculateAccuracy :: "real \<Rightarrow> int \<Rightarrow> real" where
  "calculateAccuracy h sats =
     (let baseAccuracy = h * 3
      in js_round (if sats \<ge> 8 then baseAccuracy * 0.8
                   else if sats \<ge> 6 then baseAccuracy * 1.0
                   else if sats \<ge> 4 then baseAccuracy * 1.5
                   else baseAccuracy * 2.0))"

definition updateSignalStrength :: "int \<Rightarrow> int \<Rightarrow> real option \<Rightarrow> gps \<Rightarrow> gps" where
  "updateSignalStrength quality sats h s =
     s\<lparr>signalStrength :=
         (if quality = 0 \<or> sats < 3 then sig_none
          else if sats \<ge> 8 \<and> truthy_num h \<and> the h < 2 then sig_excellent
          else if sats \<ge> 6 \<and> truthy_num h \<and> the h < 3 then sig_good
          else if sats \<ge> 4 \<and> truthy_num h \<and> the h < 5 then sig_fair
          else sig_poor)\<rparr>"

definition isGoodFix :: "gps \<Rightarrow> bool" where
  "isGoodFix s =
     (has_fix (currentData s) \<and>
      satellites (currentData s) \<ge> 4 \<and>
      fixQuality (currentData s) \<ge> 1 \<and>
      truthy_num (hdop (currentData s)) \<and> the (hdop (currentData s)) < 5 \<and>
      truthy_num (accuracy (currentData s)) \<and> the (accuracy (currentData s)) < 50)"

definition num_or_null :: "real option \<Rightarrow> jsval" where
  "num_or_null x = (case x of None \<Rightarrow> Json JNull | Some v \<Rightarrow> Json (JNum v))"

definition signal_name :: "signal_strength \<Rightarrow> string" where
  "signal_name g =
     (case g of sig_none \<Rightarrow> ''none'' | sig_poor \<Rightarrow> ''poor'' | sig_fair \<Rightarrow> ''fair''
              | sig_good \<Rightarrow> ''good'' | sig_excellent \<Rightarrow> ''excellent'')"

text \<open>
  \<^verbatim>\<open>updateLastKnownLocation\<close>: the new object, and a \<^verbatim>\<open>setImmediate\<close> that will call
  \<^verbatim>\<open>savePersistedLocation\<close>.
\<close>

definition updateLastKnownLocation :: "int \<Rightarrow> gps \<Rightarrow> gps" where
  "updateLastKnownLocation now s =
     s\<lparr>lastKnownLocation :=
         Some [(''latitude'', num_or_null (latitude (currentData s))),
               (''longitude'', num_or_null (longitude (currentData s))),
               (''altitude'', num_or_null (altitude (currentData s))),
               (''accuracy'', num_or_null (accuracy (currentData s))),
               (''satellites'', Json (JNum (of_int (satellites (currentData s))))),
               (''hdop'', num_or_null (hdop (currentData s))),
               (''signalStrength'', Json (JStr (signal_name (signalStrength s)))),
               (''timestamp'', DateV (Some now))],
       pendingSaves := Suc (pendingSaves s)\<rparr>"

text \<open>
  The fields of a GGA sentence as \<^verbatim>\<open>parseGGA\<close> decodes them: the two results of
  \<^verbatim>\<open>convertToDecimalDegrees\<close> (\<^verbatim>\<open>null\<close> is \<^term>\<open>None\<close>) and the results of
  \<^verbatim>\<open>parseInt\<close> and \<^verbatim>\<open>parseFloat\<close> (NaN is \<^term>\<open>None\<close>). Splitting the sentence and
  reading the digits are not modelled.
\<close>

record gga_fields =
  gga_latitude :: "real option"
  gga_longitude :: "real option"
  gga_quality :: "int option"
  gga_satellites :: "int option"
  gga_hdop :: "real option"
  gga_altitude :: "real option"

text \<open>\<^verbatim>\<open>parseInt(x) || 0\<close> and \<^verbatim>\<open>parseFloat(x) || null\<close>.\<close>

definition or_zero :: "int option \<Rightarrow> int" where
  "or_zero x = (case x of None \<Rightarrow> 0 | Some v \<Rightarrow> v)"

definition or_null :: "real option \<Rightarrow> real option" where
  "or_null x = (case x of None \<Rightarrow> None | Some v \<Rightarrow> if v = 0 then None else Some v)"

text \<open>\<^verbatim>\<open>parseGGA\<close>; \<^term>\<open>None\<close> is a sentence of fewer than 15 fields.\<close>

definition parseGGA :: "int \<Rightarrow> gga_fields option \<Rightarrow> gps \<Rightarrow> gps" where
  "parseGGA now parts s =
     (case parts of
        None \<Rightarrow> s
      | Some f \<Rightarrow>
          (let quality = or_zero (gga_quality f);
               sats = or_zero (gga_satellites f);
               h = or_null (gga_hdop f);
               alt = or_null (gga_altitude f)
           in if gga_latitude f \<noteq> None \<and> gga_longitude f \<noteq> None then
                (let hasFix = (quality > 0 \<and> sats \<ge> 3);
                     s1 = s\<lparr>currentData := (currentData s)
                             \<lparr>latitude := gga_latitude f, longitude := gga_longitude f,
                              altitude := alt, hdop := h, satellites := sats,
                              fixQuality := quality, has_fix := hasFix,
                              cd_timestamp := Some now\<rparr>\<rparr>;
                     s2 = (if truthy_num h
                           then s1\<lparr>currentData := (currentData s1)
                                    \<lparr>accuracy := Some (calculateAccuracy (the h) sats)\<rparr>\<rparr>
                           else s1);
                     s3 = updateSignalStrength quality sats h s2;
                     s4 = (if hasFix \<and> isGoodFix s3
                           then (let s' = updateLastKnownLocation now s3
                                 in if \<not> truthy_time (timeToFirstFix s') \<and> truthy_time (acquisitionStartTime s')
                                    then s'\<lparr>timeToFirstFix :=
                                             Some (now - the (acquisitionStartTime s'))\<rparr>
                                    else s')
                           else s3)
                 in s4\<lparr>emitted := emitted s4 @ [Ev_data]\<rparr>)
              else s))"

subsection \<open>Persistence of the last known location\<close>

definition stringify_prop :: "jsval \<Rightarrow> json" where
  "stringify_prop v =
     (case v of Json j \<Rightarrow> j | DateV None \<Rightarrow> JNull | DateV (Some t) \<Rightarrow> JIso t)"

text \<open>
  \<^verbatim>\<open>savePersistedLocation\<close>: the new content of the file. Nothing is written without a
  location, and a write that fails (\<open>write_ok\<close> false) is caught and leaves the file.
\<close>

definition savePersistedLocation :: "bool \<Rightarrow> gps \<Rightarrow> disk_file \<Rightarrow> disk_file" where
  "savePersistedLocation write_ok s f =
     (case lastKnownLocation s of
        None \<Rightarrow> f
      | Some loc \<Rightarrow>
          if write_ok then Content (JObj (map (\<lambda>(k, v). (k, stringify_prop v)) loc)) else f)"

text \<open>Truthiness of a JSON value that \<^verbatim>\<open>JSON.parse\<close> returned; a missing property is \<^verbatim>\<open>undefined\<close>.\<close>

definition truthy_json :: "json option \<Rightarrow> bool" where
  "truthy_json x =
     (case x of
        None \<Rightarrow> False
      | Some JNull \<Rightarrow> False
      | Some (JBool b) \<Rightarrow> b
      | Some (JNum n) \<Rightarrow> n \<noteq> 0
      | Some (JStr t) \<Rightarrow> t \<noteq> []
      | Some (JIso t) \<Rightarrow> True
      | Some (JArr a) \<Rightarrow> True
      | Some (JObj a) \<Rightarrow> True)"

text \<open>
  \<^verbatim>\<open>new Date(x)\<close> of a parsed JSON value: the instant, or \<^term>\<open>None\<close> for the invalid
  date. A number is truncated and must lie within 8.64e15 ms of the epoch. A string that
  \<^verbatim>\<open>toJSON\<close> wrote names its instant. Any other string, and an array or an object
  (which \<^verbatim>\<open>new Date\<close> first turns into a string), goes through the date parser of the
  JavaScript engine; what that parser makes of a text is the parameter \<open>date_parse\<close>.
\<close>

definition new_Date :: "(json \<Rightarrow> int option) \<Rightarrow> json option \<Rightarrow> int option" where
  "new_Date date_parse x =
     (case x of
        None \<Rightarrow> None
      | Some JNull \<Rightarrow> Some 0
      | Some (JBool b) \<Rightarrow> Some (if b then 1 else 0)
      | Some (JNum n) \<Rightarrow>
          (let t = (if n \<ge> 0 then \<lfloor>n\<rfloor> else \<lceil>n\<rceil>)
           in if \<bar>t\<bar> \<le> 8640000000000000 then Some t else None)
      | Some (JStr t) \<Rightarrow> date_parse (JStr t)
      | Some (JIso t) \<Rightarrow> Some t
      | Some (JArr a) \<Rightarrow> date_parse (JArr a)
      | Some (JObj a) \<Rightarrow> date_parse (JObj a))"

text \<open>
  \<^verbatim>\<open>loadPersistedLocation\<close>. A missing or unparsable file and the content \<^verbatim>\<open>null\<close>
  throw and are caught; a content that is not an object has no properties.
\<close>

definition loadPersistedLocation ::
  "(json \<Rightarrow> int option) \<Rightarrow> disk_file \<Rightarrow> gps \<Rightarrow> gps" where
  "loadPersistedLocation date_parse f s =
     (case f of
        NoFile \<Rightarrow> s
      | Unparsable \<Rightarrow> s
      | Content parsed \<Rightarrow>
          (case parsed of
             JObj props \<Rightarrow>
               if truthy_json (get_prop ''latitude'' props) \<and>
                  truthy_json (get_prop ''longitude'' props)
               then s\<lparr>lastKnownLocation :=
                        Some (set_prop ''timestamp''
                                (DateV (new_Date date_parse (get_prop ''timestamp'' props)))
                                (map (\<lambda>(k, v). (k, Json v)) props))\<rparr>
               else s
           | _ \<Rightarrow> s))"

text \<open>
  \<^verbatim>\<open>getLocationAge\<close>: the number and the unit of the string it returns (\<^verbatim>\<open>"3d"\<close>,
  \<^verbatim>\<open>"12s"\<close>), \<^verbatim>\<open>Age_NaN\<close> for an invalid date, \<^term>\<open>None\<close> for \<^verbatim>\<open>null\<close>.
\<close>

datatype age = Age_d int | Age_h int | Age_m int | Age_s int | Age_NaN

definition time_of :: "(json \<Rightarrow> int option) \<Rightarrow> jsval \<Rightarrow> int option" where
  "time_of date_parse v =
     (case v of DateV t \<Rightarrow> t | Json j \<Rightarrow> new_Date date_parse (Some j))"

definition truthy_val :: "jsval option \<Rightarrow> bool" where
  "truthy_val v =
     (case v of None \<Rightarrow> False | Some (DateV t) \<Rightarrow> True | Some (Json j) \<Rightarrow> truthy_json (Some j))"

definition getLocationAge ::
  "(json \<Rightarrow> int option) \<Rightarrow> int \<Rightarrow> gps \<Rightarrow> age option" where
  "getLocationAge date_parse now s =
     (case lastKnownLocation s of
        None \<Rightarrow> None
      | Some loc \<Rightarrow>
          if \<not> truthy_val (get_prop ''timestamp'' loc) then None
          else (case time_of date_parse (the (get_prop ''timestamp'' loc)) of
                  None \<Rightarrow> Some Age_NaN
                | Some t \<Rightarrow>
                    (let ageMs = now - t;
                         ageSeconds = ageMs div 1000;
                         ageMinutes = ageSeconds div 60;
                         ageHours = ageMinutes div 60;
                         ageDays = ageHours div 24
                     in Some (if ageDays > 0 then Age_d ageDays
                              else if ageHours > 0 then Age_h ageHours
                              else if ageMinutes > 0 then Age_m ageMinutes
                              else Age_s ageSeconds))))"

definition age_number :: "age \<Rightarrow> int option" where
  "age_number a =
     (case a of Age_d n \<Rightarrow> Some n | Age_h n \<Rightarrow> Some n | Age_m n \<Rightarrow> Some n
              | Age_s n \<Rightarrow> Some n | Age_NaN \<Rightarrow> None)"

subsection \<open>Connecting and reconnecting\<close>

text \<open>
  What trying a device path does: \<^verbatim>\<open>fs.access\<close> throws, or the port is created and
  \<^verbatim>\<open>open\<close> fails, or the port opens.
\<close>

datatype device = Dev_missing | Dev_open_fails | Dev_opens

definition possibleDevices :: "string list" where
  "possibleDevices =
     [''/dev/ttyAMA0'', ''/dev/serial0'', ''/dev/ttyUSB0'', ''/dev/ttyUSB1'',
      ''/dev/ttyACM0'', ''/dev/ttyS0'']"

text \<open>The loop over the device paths; \<^term>\<open>True\<close> when a port opened.\<close>

fun try_devices :: "(string \<Rightarrow> device) \<Rightarrow> int \<Rightarrow> string list \<Rightarrow> gps \<Rightarrow> gps \<times> bool" where
  "try_devices env now [] s = (s, False)"
| "try_devices env now (d # ds) s =
     (case env d of
        Dev_missing \<Rightarrow> try_devices env now ds s
      | Dev_open_fails \<Rightarrow> try_devices env now ds (s\<lparr>port := Some d, parser := True\<rparr>)
      | Dev_opens \<Rightarrow>
          (s\<lparr>port := Some d, parser := True, isConnected := True, connectionAttempts := 0,
             acquisitionStartTime := Some now,
             emitted := emitted s @ [Ev_connected d]\<rparr>, True))"

text \<open>\<^verbatim>\<open>connectToGPS\<close>; \<^term>\<open>False\<close> when it throws 'No GPS device found'.\<close>

definition connectToGPS :: "(string \<Rightarrow> device) \<Rightarrow> int \<Rightarrow> gps \<Rightarrow> gps \<times> bool" where
  "connectToGPS env now s =
     try_devices env now possibleDevices (s\<lparr>connectionAttempts := Suc (connectionAttempts s)\<rparr>)"

definition scheduleReconnect :: "int \<Rightarrow> gps \<Rightarrow> gps" where
  "scheduleReconnect now s =
     (if isShuttingDown s \<or> reconnectTimer s \<noteq> None \<or>
         connectionAttempts s \<ge> maxConnectionAttempts s
      then s
      else s\<lparr>reconnectTimer :=
               Some \<lparr>rt_delay = reconnectDelay s, rt_due = now + reconnectDelay s\<rparr>\<rparr>)"

text \<open>\<^verbatim>\<open>startAsyncConnection\<close>, when its \<^verbatim>\<open>setImmediate\<close> callback runs.\<close>

definition startAsyncConnection :: "(string \<Rightarrow> device) \<Rightarrow> int \<Rightarrow> gps \<Rightarrow> gps" where
  "startAsyncConnection env now s =
     (case connectToGPS env now s of
        (s1, True) \<Rightarrow> s1
      | (s1, False) \<Rightarrow> scheduleReconnect now s1)"

definition handleDisconnect :: "int \<Rightarrow> gps \<Rightarrow> gps" where
  "handleDisconnect now s =
     scheduleReconnect now
       (s\<lparr>isConnected := False,
          currentData := (currentData s)\<lparr>has_fix := False\<rparr>,
          port := None,
          parser := False,
          emitted := emitted s @ [Ev_disconnected]\<rparr>)"

text \<open>The reconnect timer fires (never before it is due) and starts a connection attempt.\<close>

definition fireReconnectTimer :: "(string \<Rightarrow> device) \<Rightarrow> int \<Rightarrow> gps \<Rightarrow> gps" where
  "fireReconnectTimer env now s =
     (case reconnectTimer s of
        None \<Rightarrow> s
      | Some t \<Rightarrow>
          if now < rt_due t then s
          else startAsyncConnection env now (s\<lparr>reconnectTimer := None\<rparr>))"

text \<open>
  The service after a disconnect when no device ever answers: the delays of the reconnect
  timers it sets, one after the other, each firing when it is due. \<open>n\<close> bounds the
  number of timers followed.
\<close>

fun reconnect_delays :: "nat \<Rightarrow> int \<Rightarrow> gps \<Rightarrow> int list" where
  "reconnect_delays 0 now s = []"
| "reconnect_delays (Suc n) now s =
     (case reconnectTimer s of
        None \<Rightarrow> []
      | Some t \<Rightarrow>
          rt_delay t #
          reconnect_delays n (rt_due t) (fireReconnectTimer (\<lambda>d. Dev_missing) (rt_due t) s))"

text \<open>The state the service is left in once no timer is pending any more.\<close>

fun reconnect_final :: "nat \<Rightarrow> int \<Rightarrow> gps \<Rightarrow> gps" where
  "reconnect_final 0 now s = s"
| "reconnect_final (Suc n) now s =
     (case reconnectTimer s of
        None \<Rightarrow> s
      | Some t \<Rightarrow>
          reconnect_final n (rt_due t) (fireReconnectTimer (\<lambda>d. Dev_missing) (rt_due t) s))"

section \<open>Concrete inputs\<close>

text \<open>
  States and inputs at which the properties below are evaluated. An MQ-6 sensor as the
  constructor builds it, initialised and past its preheat time:
\<close>

definition hot_sensor :: gas_sensor where
  "hot_sensor = (new_GasSensor MQ6 0)\<lparr>isInitialized := True, isPreheated := True\<rparr>"

text \<open>
  A manager in its second minute: both channels were read at the last tick (300 and 240
  ppm) and the level is \<^verbatim>\<open>critical\<close>.
\<close>

definition hm_running :: hardware_manager where
  "hm_running =
     new_HardwareManager
       \<lparr>hm_isInitialized := True,
        sensorData_mq6 := Some \<lparr>st_raw = 776, st_ppm = 300, st_timestamp = Some 0\<rparr>,
        sensorData_mq2 := Some \<lparr>st_raw = 776, st_ppm = 240, st_timestamp = Some 0\<rparr>,
        currentAlertLevel := critical\<rparr>"

definition reading_of :: "int \<Rightarrow> real \<Rightarrow> real \<Rightarrow> real \<Rightarrow> sensor_reading" where
  "reading_of rw v r p = \<lparr>raw = rw, voltage = v, resistance = r, ppm = p, preheated = True\<rparr>"

text \<open>A tick in which \<^verbatim>\<open>mq6.read()\<close> throws and \<^verbatim>\<open>mq2.read()\<close> returns 240 ppm.\<close>

definition tick_mq6_fails :: tick_inputs where
  "tick_mq6_fails =
     \<lparr>mq6_preheated = True, mq2_preheated = True,
      adc0 = Inl AdcFailure,
      adc1 = Inr \<lparr>adc_raw = 776, adc_voltage = 2.5\<rparr>,
      mq6_read = Inl FailedToRead,
      mq2_read = Inr (reading_of 776 2.5 5000 240)\<rparr>"








text \<open>
  A position service that is connected, and GGA sentences as decoded: a good fix with
  seven satellites, the same with three satellites and hdop 1.0, and a good fix on the
  equator.
\<close>

definition gps_connected :: gps where
  "gps_connected =
     new_GPSAsync\<lparr>gps_isInitialized := True, isConnected := True,
                   port := Some ''/dev/ttyAMA0'', parser := True\<rparr>"

definition gga_good :: gga_fields where
  "gga_good =
     \<lparr>gga_latitude = Some 14.654103, gga_longitude = Some 120.960309,
      gga_quality = Some 1, gga_satellites = Some 7, gga_hdop = Some 1.2,
      gga_altitude = Some 12\<rparr>"

definition gga_three :: gga_fields where
  "gga_three = gga_good\<lparr>gga_satellites := Some 3, gga_hdop := Some 1.0\<rparr>"

definition gga_equator :: gga_fields where
  "gga_equator = gga_good\<lparr>gga_latitude := Some 0, gga_longitude := Some 6.5\<rparr>"

definition at_home :: gps where
  "at_home = parseGGA 1000 (Some gga_good) new_GPSAsync"

definition at_equator :: gps where
  "at_equator = parseGGA 1000 (Some gga_equator) new_GPSAsync"

text \<open>
  Three operations submitted to pin 17 at once, each write succeeding; and one operation
  whose write fails every time. The timers of these two runs are not early.
\<close>

definition three_ops :: "event list" where
  "three_ops =
     [Enqueue 17 1 2000, Enqueue 17 0 2000, Enqueue 17 1 2000,
      Tick 20, ExecDone 17 0 True,
      Tick 100, TimerFires 17 0 0, Tick 25, ExecDone 17 0 True,
      Tick 130, TimerFires 17 0 0, Tick 30, ExecDone 17 0 True]"

definition failing_op :: "event list" where
  "failing_op =
     [Enqueue 17 1 2000, Tick 15, ExecDone 17 0 False,
      Tick 100, TimerFires 17 0 0, Tick 15, ExecDone 17 0 False]"

text \<open>
  Two writes on pin 17 submitted together. The first write ends at 1000020 ms and the
  delay timer of the second is set for 100 ms; read on \<^verbatim>\<open>Date.now()\<close> it fires 1 ms
  early, at 1000119 ms.
\<close>

definition early_timer :: "event list" where
  "early_timer =
     [Enqueue 17 1 2000, Enqueue 17 0 2000,
      Tick 20, ExecDone 17 0 True,
      Tick 99, TimerFires 17 0 1, Tick 25, ExecDone 17 0 True]"

chapter \<open>Properties\<close>

section \<open>Alert level of a fused assessment\<close>

lemma ratio_bound:
  fixes u v :: real
  assumes "200 < v" "8/10 < u / v"
  shows "4/5 * v < u"
proof -
  have pos: "0 < v" using assms(1) by linarith
  have "u / v * v = u" using pos by simp
  with mult_strict_right_mono[OF assms(2) pos] show ?thesis by simp
qed

lemma excellent_arith:
  fixes x y :: real
  assumes "max x y > 200" "min x y / max x y > 0.8"
  shows "x > 160 \<and> y > 160 \<and> x \<le> 5/4 * y \<and> y \<le> 5/4 * x"
proof (cases "x \<le> y")
  case True
  then have e: "max x y = y" "min x y = x" by simp_all
  have "200 < y" "8/10 < x / y" using assms unfolding e by simp_all
  from ratio_bound[OF this] \<open>200 < y\<close> True show ?thesis by linarith
next
  case False
  then have e: "max x y = x" "min x y = y" by simp_all
  have "200 < x" "8/10 < y / x" using assms unfolding e by simp_all
  from ratio_bound[OF this] \<open>200 < x\<close> False show ?thesis by linarith
qed

lemma excellent_gas:
  assumes "max (sd_ppm a) (sd_ppm b) > 200" "analyzeSensorAgreement a b = EXCELLENT"
  shows "detectGasType a b = LPG_Propane"
proof -
  let ?x = "sd_ppm a" and ?y = "sd_ppm b"
  have ne: "max ?x ?y \<noteq> 0" using assms(1) by simp
  have r: "min ?x ?y / max ?x ?y > 0.8"
    using assms(2) ne by (simp add: analyzeSensorAgreement_def Let_def split: if_splits)
  from excellent_arith[OF assms(1) r]
  have x: "?x > 160" and y: "?y > 160" and xy: "?x \<le> 5/4 * ?y" and yx: "?y \<le> 5/4 * ?x"
    by simp_all
  have "?x / max ?y 1 \<le> 1.5" using xy y by (simp add: max_def field_simps)
  moreover have "?y / max ?x 1 \<le> 2" using yx x by (simp add: max_def field_simps)
  ultimately show ?thesis using x y by (simp add: detectGasType_def Let_def)
qed

lemma excellent_confidence:
  assumes "max (sd_ppm a) (sd_ppm b) > 200" "analyzeSensorAgreement a b = EXCELLENT"
  shows "calculateConfidence a b > 84"
proof -
  let ?x = "sd_ppm a" and ?y = "sd_ppm b"
  have ne: "max ?x ?y \<noteq> 0" using assms(1) by simp
  have r: "min ?x ?y / max ?x ?y > 0.8"
    using assms(2) ne by (simp add: analyzeSensorAgreement_def Let_def split: if_splits)
  from excellent_arith[OF assms(1) r]
  have x: "?x > 160" and y: "?y > 160" by simp_all
  have mn: "min ?x ?y > 5" using x y by simp
  have "q * 30 > 24" if "q > 8/10" for q :: real using that by simp
  from this[OF r] have "40 + min ?x ?y / max ?x ?y * 30 + 20 > 84" by simp
  moreover have "calculateConfidence a b = min 100 (max 0 (40 + min ?x ?y / max ?x ?y * 30 + 20))"
    using assms(1) mn by (simp add: calculateConfidence_def Let_def)
  ultimately show ?thesis by simp
qed

text \<open>
  The third rule of \<^verbatim>\<open>determineSmartAlertLevel\<close> (more than 200 ppm with EXCELLENT
  agreement gives \<^verbatim>\<open>critical\<close>) never decides a fused assessment: with such readings
  the gas type is LPG/Propane and the confidence exceeds 84, so the first or the second
  rule has already answered, \<^verbatim>\<open>critical\<close> above 300 / 1.1 ppm and \<^verbatim>\<open>low\<close> up to there.
\<close>

lemma third_rule_shadowed:
  assumes "maxPpm (evaluateSensorData now a b) > 200"
    and "agreement (evaluateSensorData now a b) = EXCELLENT"
  shows "determineSmartAlertLevel al (evaluateSensorData now a b) =
           (if max (sd_ppm a) (sd_ppm b) * 1.1 > 300 then critical else low)"
proof -
  have mx: "max (sd_ppm a) (sd_ppm b) > 200"
    using assms(1) by (simp add: evaluateSensorData_def Let_def)
  have ag: "analyzeSensorAgreement a b = EXCELLENT"
    using assms(2) by (simp add: evaluateSensorData_def Let_def)
  have g: "detectGasType a b = LPG_Propane" by (rule excellent_gas[OF mx ag])
  have c: "calculateConfidence a b > 84" by (rule excellent_confidence[OF mx ag])
  have risk: "assessRisk a b LPG_Propane =
                (if max (sd_ppm a) (sd_ppm b) * 1.1 > 300 then HIGH else MEDIUM)"
    using mx by (simp add: assessRisk_def riskMultipliers_def Let_def)
  show ?thesis using g c risk
    by (simp add: determineSmartAlertLevel_def evaluateSensorData_def Let_def)
qed

text \<open>
  The first half of claim C1 holds for every pair of readings: a fused assessment with
  \<^verbatim>\<open>maxPpm = 150\<close> and GOOD agreement is \<^verbatim>\<open>low\<close>, whatever the thresholds.
\<close>

lemma good_150_is_low:
  assumes "maxPpm (evaluateSensorData now a b) = 150"
    and "agreement (evaluateSensorData now a b) = GOOD"
  shows "determineSmartAlertLevel al (evaluateSensorData now a b) = low"
proof -
  have mx: "max (sd_ppm a) (sd_ppm b) = 150"
    using assms(1) by (simp add: evaluateSensorData_def Let_def)
  have ag: "analyzeSensorAgreement a b = GOOD"
    using assms(2) by (simp add: evaluateSensorData_def Let_def)
  have "riskMultipliers g \<le> 1.5" for g by (cases g) (simp_all add: riskMultipliers_def)
  then have "150 * riskMultipliers g \<le> 300" for g
    using mult_left_mono[of "riskMultipliers g" "1.5" "150::real"] by simp
  then have "assessRisk a b g \<noteq> HIGH" for g
    using mx by (simp add: assessRisk_def Let_def not_less)
  then show ?thesis using mx ag
    by (simp add: determineSmartAlertLevel_def evaluateSensorData_def Let_def)
qed

text \<open>
  Claim C1, second half: a fused assessment with \<^verbatim>\<open>maxPpm = 250\<close> and EXCELLENT
  agreement is said to be \<^verbatim>\<open>critical\<close>. The code answers \<^verbatim>\<open>low\<close>: with both channels
  at 250 ppm the risk is MEDIUM (250 * 1.1 = 275) and the confidence is 90, so the second
  rule returns \<^verbatim>\<open>low\<close> before the rule for EXCELLENT agreement is reached.
\<close>

theorem C1_excellent_250_is_low:
  "maxPpm (evaluateSensorData 0 \<lparr>sd_raw = 0, sd_ppm = 250\<rparr> \<lparr>sd_raw = 0, sd_ppm = 250\<rparr>) = 250
   \<and> agreement (evaluateSensorData 0 \<lparr>sd_raw = 0, sd_ppm = 250\<rparr> \<lparr>sd_raw = 0, sd_ppm = 250\<rparr>)
       = EXCELLENT
   \<and> determineSmartAlertLevel default_alertLevels
        (evaluateSensorData 0 \<lparr>sd_raw = 0, sd_ppm = 250\<rparr> \<lparr>sd_raw = 0, sd_ppm = 250\<rparr>) = low"
  by (simp add: evaluateSensorData_def determineSmartAlertLevel_def detectGasType_def
      calculateConfidence_def assessRisk_def analyzeSensorAgreement_def riskMultipliers_def
      Let_def)

section \<open>Concentration of a sensor read\<close>

lemma curve_nonneg: "0 \<le> curve t x"
  by (cases t) (simp_all add: curve_def)

lemma curve_antimono:
  assumes "0 < x" "x \<le> y"
  shows "curve t y \<le> curve t x"
proof (cases t)
  case MQ2
  have "x powr 2.2 \<le> y powr 2.2" using assms by (intro powr_mono2) simp_all
  moreover have "0 < x powr 2.2" using assms by simp
  ultimately have "800 / (y powr 2.2) \<le> 800 / (x powr 2.2)"
    by (intro frac_le) simp_all
  then show ?thesis using MQ2 by (simp add: curve_def)
next
  case MQ6
  have "x powr 2.5 \<le> y powr 2.5" using assms by (intro powr_mono2) simp_all
  moreover have "0 < x powr 2.5" using assms by simp
  ultimately have "1000 / (y powr 2.5) \<le> 1000 / (x powr 2.5)"
    by (intro frac_le) simp_all
  then show ?thesis using MQ6 by (simp add: curve_def)
next
  case OtherType
  then show ?thesis by (simp add: curve_def)
qed

lemma calculatePPM_nonneg: "0 \<le> calculatePPM s r"
  by (simp add: calculatePPM_def Let_def)

lemma calculatePPM_inside:
  assumes "0 < ro s" "0 < r" "r < 1000000"
  shows "calculatePPM s r = min 10000 (curve (stype s) (r / ro s))"
  using assms curve_nonneg[of "stype s" "r / ro s"]
  by (simp add: calculatePPM_def Let_def divide_le_0_iff)



lemma mcp3008_voltage:
  assumes "0 \<le> rawValue" "rawValue \<le> 1023"
  shows "0 \<le> adc_voltage (mcp3008_reading rawValue)"
    and "adc_voltage (mcp3008_reading rawValue) \<le> 33/10"
  using assms by (simp_all add: mcp3008_reading_def)








text \<open>
  Claim C9: for a fixed positive baseline \<open>Ro\<close> and resistances
  \<open>100 \<le> R1 \<le> R2 \<le> 1000000\<close>, the concentration \<^verbatim>\<open>calculatePPM\<close> computes for
  \<open>R2\<close> is at most the one it computes for \<open>R1\<close>.
\<close>

theorem C9_calculatePPM_antimono:
  assumes "0 < ro s" "100 \<le> r1" "r1 \<le> r2" "r2 \<le> 1000000"
  shows "calculatePPM s r2 \<le> calculatePPM s r1"
proof (cases "r2 < 1000000")
  case False
  then have "calculatePPM s r2 = 0" by (simp add: calculatePPM_def)
  then show ?thesis using calculatePPM_nonneg[of s r1] by simp
next
  case True
  have p1: "0 < r1" "r1 < 1000000" and p2: "0 < r2" using assms True by linarith+
  have "0 < r1 / ro s" using p1 assms(1) by simp
  moreover have "r1 / ro s \<le> r2 / ro s" using assms(1,3) by (simp add: divide_right_mono)
  ultimately have "curve (stype s) (r2 / ro s) \<le> curve (stype s) (r1 / ro s)"
    by (rule curve_antimono)
  then show ?thesis
    using calculatePPM_inside[OF assms(1) p1] calculatePPM_inside[OF assms(1) p2 True]
    by simp
qed

theorem C9_witness:
  "0 < ro hot_sensor \<and> (100::real) \<le> 1250 \<and> (1250::real) \<le> 5000 \<and> (5000::real) \<le> 1000000
   \<and> calculatePPM hot_sensor 5000 \<le> calculatePPM hot_sensor 1250"
  using C9_calculatePPM_antimono[of hot_sensor 1250 5000]
  by (simp add: hot_sensor_def new_GasSensor_def)

section \<open>A channel read that fails during a tick\<close>

lemma level_0_240:
  "determineSmartAlertLevel default_alertLevels
     (evaluateSensorData t \<lparr>sd_raw = 0, sd_ppm = 0\<rparr> \<lparr>sd_raw = 776, sd_ppm = 240\<rparr>) = low"
  by (simp add: evaluateSensorData_def determineSmartAlertLevel_def detectGasType_def
      calculateConfidence_def assessRisk_def riskMultipliers_def analyzeSensorAgreement_def
      determineAlertLevel_def default_alertLevels_def Let_def)

lemma max_min_0_240:
  "maxPpm (evaluateSensorData t \<lparr>sd_raw = 0, sd_ppm = 0\<rparr> \<lparr>sd_raw = 776, sd_ppm = 240\<rparr>) = 240 \<and>
   minPpm (evaluateSensorData t \<lparr>sd_raw = 0, sd_ppm = 0\<rparr> \<lparr>sd_raw = 776, sd_ppm = 240\<rparr>) = 0"
  by (simp add: evaluateSensorData_def Let_def)

text \<open>
  With the previous valid reading of the failed channel (300 ppm) the same tick would
  have stayed \<^verbatim>\<open>critical\<close>.
\<close>

lemma level_300_240:
  "determineSmartAlertLevel default_alertLevels
     (evaluateSensorData t \<lparr>sd_raw = 776, sd_ppm = 300\<rparr> \<lparr>sd_raw = 776, sd_ppm = 240\<rparr>) = critical"
  by (simp add: evaluateSensorData_def determineSmartAlertLevel_def detectGasType_def
      calculateConfidence_def assessRisk_def riskMultipliers_def Let_def)

text \<open>A tick of an initialised manager with both sensors preheated is never aborted.\<close>

lemma tick_evaluated:
  assumes "hm_isInitialized hm" "mq6_preheated inp" "mq2_preheated inp"
  shows "readSensorData now inp hm =
    \<lparr>tr_hm = hm
       \<lparr>sensorData_mq6 := (case mq6_read inp of Inr r \<Rightarrow> Some (store_of now r)
                                      | Inl e \<Rightarrow> keep_or_zero now (sensorData_mq6 hm)),
        sensorData_mq2 := (case mq2_read inp of Inr r \<Rightarrow> Some (store_of now r)
                                      | Inl e \<Rightarrow> keep_or_zero now (sensorData_mq2 hm)),
        sensorData_fused := Some (evaluateSensorData now
            (case mq6_read inp of Inr r \<Rightarrow> data_of r | Inl e \<Rightarrow> zero_data)
            (case mq2_read inp of Inr r \<Rightarrow> data_of r | Inl e \<Rightarrow> zero_data)),
        currentAlertLevel := determineSmartAlertLevel (alertLevels hm) (evaluateSensorData now
            (case mq6_read inp of Inr r \<Rightarrow> data_of r | Inl e \<Rightarrow> zero_data)
            (case mq2_read inp of Inr r \<Rightarrow> data_of r | Inl e \<Rightarrow> zero_data)),
        lastUpdate := Some now\<rparr>,
     tr_outcome = Evaluated,
     tr_change = (if determineSmartAlertLevel (alertLevels hm) (evaluateSensorData now
            (case mq6_read inp of Inr r \<Rightarrow> data_of r | Inl e \<Rightarrow> zero_data)
            (case mq2_read inp of Inr r \<Rightarrow> data_of r | Inl e \<Rightarrow> zero_data))
                       \<noteq> currentAlertLevel hm
         then Some (determineSmartAlertLevel (alertLevels hm) (evaluateSensorData now
            (case mq6_read inp of Inr r \<Rightarrow> data_of r | Inl e \<Rightarrow> zero_data)
            (case mq2_read inp of Inr r \<Rightarrow> data_of r | Inl e \<Rightarrow> zero_data)),
             currentAlertLevel hm,
             maxPpm (evaluateSensorData now
            (case mq6_read inp of Inr r \<Rightarrow> data_of r | Inl e \<Rightarrow> zero_data)
            (case mq2_read inp of Inr r \<Rightarrow> data_of r | Inl e \<Rightarrow> zero_data)))
         else None)\<rparr>"
  using assms by (simp add: readSensorData_def Let_def)

text \<open>
  Claim C8: when a channel read throws, the tick goes on and the fusion uses the
  channel's previous valid reading. The tick does go on, and the stored reading of the
  channel is kept (300 ppm); but the fusion and the alert level are computed from zero
  for the failed channel: \<^verbatim>\<open>minPpm\<close> is 0, \<^verbatim>\<open>maxPpm\<close> is the other channel's 240,
  and the level falls from \<^verbatim>\<open>critical\<close> to \<^verbatim>\<open>low\<close>.
\<close>

theorem C8_failed_read_fuses_zero:
  "tr_outcome (readSensorData 2000 tick_mq6_fails hm_running) = Evaluated
   \<and> sensorData_mq6 (tr_hm (readSensorData 2000 tick_mq6_fails hm_running))
       = Some \<lparr>st_raw = 776, st_ppm = 300, st_timestamp = Some 0\<rparr>
   \<and> map_option maxPpm (sensorData_fused (tr_hm (readSensorData 2000 tick_mq6_fails hm_running)))
       = Some 240
   \<and> map_option minPpm (sensorData_fused (tr_hm (readSensorData 2000 tick_mq6_fails hm_running)))
       = Some 0
   \<and> tr_change (readSensorData 2000 tick_mq6_fails hm_running) = Some (low, critical, 240)"
proof -
  have i: "hm_isInitialized hm_running" "mq6_preheated tick_mq6_fails"
    "mq2_preheated tick_mq6_fails"
    by (simp_all add: hm_running_def tick_mq6_fails_def new_HardwareManager_def)
  have r6: "mq6_read tick_mq6_fails = Inl FailedToRead"
    and r2: "mq2_read tick_mq6_fails = Inr (reading_of 776 2.5 5000 240)"
    by (simp_all add: tick_mq6_fails_def)
  have d2: "data_of (reading_of a b c d) = \<lparr>sd_raw = a, sd_ppm = d\<rparr>" for a b c d
    by (simp add: data_of_def reading_of_def)
  have h: "sensorData_mq6 hm_running = Some \<lparr>st_raw = 776, st_ppm = 300, st_timestamp = Some 0\<rparr>"
    "alertLevels hm_running = default_alertLevels" "currentAlertLevel hm_running = critical"
    by (simp_all add: hm_running_def new_HardwareManager_def)
  show ?thesis
    unfolding tick_evaluated[OF i] r6 r2
    by (simp add: d2 h zero_data_def keep_or_zero_def level_0_240 max_min_0_240)
qed

section \<open>The cooldown of the notification gate\<close>


text \<open>Inside the cooldown \<^verbatim>\<open>triggerSMSAlert\<close> sends nothing and changes nothing.\<close>

lemma trigger_in_cooldown:
  assumes "lastSMSTime (detectionState am) = Some t" "t \<noteq> 0" "now - t < SMS_COOLDOWN am"
  shows "triggerSMSAlert env now lvl sd am = (am, None)"
  using assms by (simp add: triggerSMSAlert_def truthy_time_def)









section \<open>The good-fix gate\<close>

lemmas gga_defs =
  parseGGA_def Let_def isGoodFix_def updateSignalStrength_def updateLastKnownLocation_def
  truthy_num_def truthy_time_def or_null_def or_zero_def calculateAccuracy_def js_round_def
  new_GPSAsync_def

lemma parseGGA_promotes_only_good:
  "lastKnownLocation (parseGGA now (Some f) s) \<noteq> lastKnownLocation s
     \<or> pendingSaves (parseGGA now (Some f) s) \<noteq> pendingSaves s
   \<Longrightarrow> has_fix (currentData (parseGGA now (Some f) s))
     \<and> satellites (currentData (parseGGA now (Some f) s)) = or_zero (gga_satellites f)
     \<and> fixQuality (currentData (parseGGA now (Some f) s)) = or_zero (gga_quality f)
     \<and> hdop (currentData (parseGGA now (Some f) s)) = gga_hdop f
     \<and> accuracy (currentData (parseGGA now (Some f) s))
         = Some (calculateAccuracy (the (gga_hdop f)) (or_zero (gga_satellites f)))
     \<and> or_zero (gga_satellites f) \<ge> 4
     \<and> or_zero (gga_quality f) \<ge> 1
     \<and> truthy_num (gga_hdop f) \<and> the (gga_hdop f) < 5
     \<and> calculateAccuracy (the (gga_hdop f)) (or_zero (gga_satellites f)) < 50"
  by (auto simp: parseGGA_def Let_def isGoodFix_def updateSignalStrength_def
      updateLastKnownLocation_def truthy_num_def or_null_def split: if_splits option.splits)

lemma good_promoted:
  "pendingSaves (parseGGA 1000 (Some gga_good) new_GPSAsync) = 1
   \<and> accuracy (currentData (parseGGA 1000 (Some gga_good) new_GPSAsync)) = Some 4"
  by (simp add: gga_defs gga_good_def)

lemma three_sats:
  "satellites (currentData (parseGGA 1000 (Some gga_three) new_GPSAsync)) = 3
   \<and> hdop (currentData (parseGGA 1000 (Some gga_three) new_GPSAsync)) = Some 1
   \<and> fixQuality (currentData (parseGGA 1000 (Some gga_three) new_GPSAsync)) = 1
   \<and> has_fix (currentData (parseGGA 1000 (Some gga_three) new_GPSAsync))"
  by (simp add: gga_defs gga_three_def gga_good_def)

text \<open>
  Claim C5: \<^verbatim>\<open>parseGGA\<close> is the only place where a decoded position becomes the last
  known location and a save to disk is scheduled. Whenever it does either, the decoded
  position passed the gate: fix flag, at least 4 satellites, fix quality at least 1,
  hdop below 5, and the accuracy computed from hdop and satellites below 50. A position
  with 3 satellites changes neither the last known location nor the scheduled saves.
\<close>

theorem C5_good_fix_gate:
  "(lastKnownLocation (parseGGA now parts s) \<noteq> lastKnownLocation s
      \<or> pendingSaves (parseGGA now parts s) \<noteq> pendingSaves s
    \<longrightarrow> (\<exists>f h. parts = Some f \<and> gga_hdop f = Some h
          \<and> has_fix (currentData (parseGGA now parts s))
          \<and> satellites (currentData (parseGGA now parts s)) \<ge> 4
          \<and> fixQuality (currentData (parseGGA now parts s)) \<ge> 1
          \<and> hdop (currentData (parseGGA now parts s)) = Some h \<and> h < 5
          \<and> accuracy (currentData (parseGGA now parts s))
               = Some (calculateAccuracy h (satellites (currentData (parseGGA now parts s))))
          \<and> calculateAccuracy h (satellites (currentData (parseGGA now parts s))) < 50))
   \<and> (satellites (currentData (parseGGA now parts s)) = 3
    \<longrightarrow> lastKnownLocation (parseGGA now parts s) = lastKnownLocation s
        \<and> pendingSaves (parseGGA now parts s) = pendingSaves s)"
proof (cases parts)
  case None
  then show ?thesis by (simp add: parseGGA_def)
next
  case (Some f)
  show ?thesis
  proof (cases "lastKnownLocation (parseGGA now (Some f) s) \<noteq> lastKnownLocation s
     \<or> pendingSaves (parseGGA now (Some f) s) \<noteq> pendingSaves s")
    case True
    from parseGGA_promotes_only_good[OF True] show ?thesis
      unfolding Some by (cases "gga_hdop f") (auto simp: truthy_num_def)
  next
    case False
    then show ?thesis unfolding Some by auto
  qed
qed

theorem C5_witness:
  "pendingSaves (parseGGA 1000 (Some gga_good) new_GPSAsync) \<noteq> pendingSaves new_GPSAsync
   \<and> satellites (currentData (parseGGA 1000 (Some gga_good) new_GPSAsync)) \<ge> 4
   \<and> accuracy (currentData (parseGGA 1000 (Some gga_good) new_GPSAsync)) = Some 4
   \<and> satellites (currentData (parseGGA 1000 (Some gga_three) new_GPSAsync)) = 3
   \<and> hdop (currentData (parseGGA 1000 (Some gga_three) new_GPSAsync)) = Some 1
   \<and> fixQuality (currentData (parseGGA 1000 (Some gga_three) new_GPSAsync)) = 1
   \<and> lastKnownLocation (parseGGA 1000 (Some gga_three) new_GPSAsync) = None
   \<and> pendingSaves (parseGGA 1000 (Some gga_three) new_GPSAsync) = 0"
proof -
  have init: "pendingSaves new_GPSAsync = 0" "lastKnownLocation new_GPSAsync = None"
    by (simp_all add: new_GPSAsync_def)
  have p: "pendingSaves (parseGGA 1000 (Some gga_good) new_GPSAsync)
             \<noteq> pendingSaves new_GPSAsync"
    using good_promoted init by simp
  have g: "satellites (currentData (parseGGA 1000 (Some gga_good) new_GPSAsync)) \<ge> 4"
    using C5_good_fix_gate[of 1000 "Some gga_good" new_GPSAsync] p by blast
  have t: "lastKnownLocation (parseGGA 1000 (Some gga_three) new_GPSAsync)
             = lastKnownLocation new_GPSAsync
           \<and> pendingSaves (parseGGA 1000 (Some gga_three) new_GPSAsync)
             = pendingSaves new_GPSAsync"
    using C5_good_fix_gate[of 1000 "Some gga_three" new_GPSAsync] three_sats by blast
  show ?thesis using p g t good_promoted three_sats init by simp
qed

section \<open>Reconnecting\<close>

lemma try_devices_missing:
  "try_devices (\<lambda>d. Dev_missing) now ds s = (s, False)"
  by (induction ds) simp_all

text \<open>A reconnect timer fires and no device answers.\<close>

lemma fire_failed:
  assumes "reconnectTimer s = Some t" "\<not> isShuttingDown s"
  shows "fireReconnectTimer (\<lambda>d. Dev_missing) (rt_due t) s =
     (if Suc (connectionAttempts s) \<ge> maxConnectionAttempts s
      then s\<lparr>reconnectTimer := None, connectionAttempts := Suc (connectionAttempts s)\<rparr>
      else s\<lparr>reconnectTimer :=
               Some \<lparr>rt_delay = reconnectDelay s, rt_due = rt_due t + reconnectDelay s\<rparr>,
             connectionAttempts := Suc (connectionAttempts s)\<rparr>)"
  using assms
  by (simp add: fireReconnectTimer_def startAsyncConnection_def connectToGPS_def
      try_devices_missing scheduleReconnect_def)

lemma delays_constant:
  assumes "\<not> isShuttingDown s"
    and "reconnectTimer s =
           (if connectionAttempts s < maxConnectionAttempts s
            then Some \<lparr>rt_delay = reconnectDelay s, rt_due = due\<rparr> else None)"
  shows "reconnect_delays n now s =
           replicate (min n (maxConnectionAttempts s - connectionAttempts s)) (reconnectDelay s)"
  using assms
proof (induction n arbitrary: s due now)
  case 0
  then show ?case by simp
next
  case (Suc n)
  show ?case
  proof (cases "connectionAttempts s < maxConnectionAttempts s")
    case False
    then show ?thesis using Suc.prems by simp
  next
    case True
    let ?t = "\<lparr>rt_delay = reconnectDelay s, rt_due = due\<rparr>"
    let ?s' = "fireReconnectTimer (\<lambda>d. Dev_missing) due s"
    have tm: "reconnectTimer s = Some ?t" using Suc.prems True by simp
    have s': "?s' =
       (if Suc (connectionAttempts s) \<ge> maxConnectionAttempts s
        then s\<lparr>reconnectTimer := None, connectionAttempts := Suc (connectionAttempts s)\<rparr>
        else s\<lparr>reconnectTimer :=
               Some \<lparr>rt_delay = reconnectDelay s, rt_due = due + reconnectDelay s\<rparr>,
             connectionAttempts := Suc (connectionAttempts s)\<rparr>)"
      using fire_failed[OF tm Suc.prems(1)] by simp
    have a: "\<not> isShuttingDown ?s'" "maxConnectionAttempts ?s' = maxConnectionAttempts s"
      "reconnectDelay ?s' = reconnectDelay s"
      "connectionAttempts ?s' = Suc (connectionAttempts s)"
      using Suc.prems(1) by (simp_all add: s')
    have b: "reconnectTimer ?s' =
           (if connectionAttempts ?s' < maxConnectionAttempts ?s'
            then Some \<lparr>rt_delay = reconnectDelay ?s', rt_due = due + reconnectDelay s\<rparr>
            else None)"
      unfolding a by (simp add: s' not_le)
    have "reconnect_delays n due ?s' =
            replicate (min n (maxConnectionAttempts ?s' - connectionAttempts ?s'))
              (reconnectDelay ?s')"
      by (rule Suc.IH[OF a(1) b])
    then have "reconnect_delays (Suc n) now s =
       reconnectDelay s #
       replicate (min n (maxConnectionAttempts s - Suc (connectionAttempts s))) (reconnectDelay s)"
      using tm by (simp add: a)
    also have "\<dots> =
       replicate (Suc (min n (maxConnectionAttempts s - Suc (connectionAttempts s))))
         (reconnectDelay s)"
      by simp
    also have "Suc (min n (maxConnectionAttempts s - Suc (connectionAttempts s)))
                 = min (Suc n) (maxConnectionAttempts s - connectionAttempts s)"
      using True by simp
    finally show ?thesis .
  qed
qed

lemma final_stops:
  assumes "\<not> isShuttingDown s"
    and "reconnectTimer s =
           (if connectionAttempts s < maxConnectionAttempts s
            then Some \<lparr>rt_delay = reconnectDelay s, rt_due = due\<rparr> else None)"
    and "maxConnectionAttempts s - connectionAttempts s \<le> n"
  shows "reconnectTimer (reconnect_final n now s) = None
       \<and> connectionAttempts (reconnect_final n now s)
           = max (connectionAttempts s) (maxConnectionAttempts s)
       \<and> isConnected (reconnect_final n now s) = isConnected s"
  using assms
proof (induction n arbitrary: s due now)
  case 0
  then show ?case by (simp split: if_splits)
next
  case (Suc n)
  show ?case
  proof (cases "connectionAttempts s < maxConnectionAttempts s")
    case False
    then show ?thesis using Suc.prems by simp
  next
    case True
    let ?t = "\<lparr>rt_delay = reconnectDelay s, rt_due = due\<rparr>"
    let ?s' = "fireReconnectTimer (\<lambda>d. Dev_missing) due s"
    have tm: "reconnectTimer s = Some ?t" using Suc.prems True by simp
    have s': "?s' =
       (if Suc (connectionAttempts s) \<ge> maxConnectionAttempts s
        then s\<lparr>reconnectTimer := None, connectionAttempts := Suc (connectionAttempts s)\<rparr>
        else s\<lparr>reconnectTimer :=
               Some \<lparr>rt_delay = reconnectDelay s, rt_due = due + reconnectDelay s\<rparr>,
             connectionAttempts := Suc (connectionAttempts s)\<rparr>)"
      using fire_failed[OF tm Suc.prems(1)] by simp
    have a: "\<not> isShuttingDown ?s'" "maxConnectionAttempts ?s' = maxConnectionAttempts s"
      "reconnectDelay ?s' = reconnectDelay s"
      "connectionAttempts ?s' = Suc (connectionAttempts s)"
      "isConnected ?s' = isConnected s"
      using Suc.prems(1) by (simp_all add: s')
    have b: "reconnectTimer ?s' =
           (if connectionAttempts ?s' < maxConnectionAttempts ?s'
            then Some \<lparr>rt_delay = reconnectDelay ?s', rt_due = due + reconnectDelay s\<rparr>
            else None)"
      unfolding a by (simp add: s' not_le)
    have c: "maxConnectionAttempts ?s' - connectionAttempts ?s' \<le> n"
      unfolding a using Suc.prems(3) by simp
    from Suc.IH[OF a(1) b c, of due] show ?thesis
      using tm True by (simp add: a)
  qed
qed

lemma handleDisconnect_state:
  assumes "\<not> isShuttingDown s" "reconnectTimer s = None"
  shows "\<not> isConnected (handleDisconnect now s) \<and> port (handleDisconnect now s) = None
    \<and> \<not> has_fix (currentData (handleDisconnect now s))
    \<and> \<not> isShuttingDown (handleDisconnect now s)
    \<and> maxConnectionAttempts (handleDisconnect now s) = maxConnectionAttempts s
    \<and> connectionAttempts (handleDisconnect now s) = connectionAttempts s
    \<and> reconnectDelay (handleDisconnect now s) = reconnectDelay s
    \<and> reconnectTimer (handleDisconnect now s) =
           (if connectionAttempts s < maxConnectionAttempts s
            then Some \<lparr>rt_delay = reconnectDelay s, rt_due = now + reconnectDelay s\<rparr>
            else None)"
  using assms by (simp add: handleDisconnect_def scheduleReconnect_def not_le)

lemma connected_facts:
  "\<not> isShuttingDown gps_connected" "reconnectTimer gps_connected = None"
  "maxConnectionAttempts gps_connected = 10" "connectionAttempts gps_connected = 0"
  "reconnectDelay gps_connected = 5000" "isConnected gps_connected"
  by (simp_all add: gps_connected_def new_GPSAsync_def)

text \<open>
  Claim C6 as stated fails: the delays do not grow. After a disconnect of a connected
  service the first three reconnect timers are all set with 5000 ms, not with 5000,
  10000 and 20000 ms.
\<close>

theorem C6_counterexample:
  "reconnect_delays 3 0 (handleDisconnect 0 gps_connected) = [5000, 5000, 5000]
   \<and> reconnect_delays 3 0 (handleDisconnect 0 gps_connected) \<noteq> [5000, 10000, 20000]"
proof -
  note h = handleDisconnect_state[OF connected_facts(1,2), of 0]
  have tm: "reconnectTimer (handleDisconnect 0 gps_connected) =
           (if connectionAttempts (handleDisconnect 0 gps_connected)
                 < maxConnectionAttempts (handleDisconnect 0 gps_connected)
            then Some \<lparr>rt_delay = reconnectDelay (handleDisconnect 0 gps_connected),
                        rt_due = 0 + reconnectDelay gps_connected\<rparr> else None)"
    using h by simp
  have sd: "\<not> isShuttingDown (handleDisconnect 0 gps_connected)" using h by simp
  have "reconnect_delays 3 0 (handleDisconnect 0 gps_connected) = replicate 3 5000"
    using delays_constant[OF sd tm, of 3 0] h connected_facts by simp
  then show ?thesis by (simp add: numeral_3_eq_3)
qed

text \<open>
  Claim C6, amended: after a transport error or a close, the service is marked
  disconnected, its port is dropped, and, unless it is shutting down or a reconnect is
  pending, reconnects are scheduled with the same fixed delay \<^verbatim>\<open>reconnectDelay\<close>
  (5000 ms) each time. When every attempt fails there are exactly
  \<open>10 - connectionAttempts\<close> of them; then no timer is pending any more and the
  service stays disconnected.
\<close>

theorem C6_reconnect_fixed_delay:
  assumes "\<not> isShuttingDown s" "reconnectTimer s = None" "maxConnectionAttempts s = 10"
    and "10 \<le> n"
  shows "\<not> isConnected (handleDisconnect now s) \<and> port (handleDisconnect now s) = None
    \<and> reconnect_delays n now (handleDisconnect now s)
         = replicate (10 - connectionAttempts s) (reconnectDelay s)
    \<and> reconnectTimer (reconnect_final n now (handleDisconnect now s)) = None
    \<and> \<not> isConnected (reconnect_final n now (handleDisconnect now s))"
proof -
  let ?s = "handleDisconnect now s"
  note h = handleDisconnect_state[OF assms(1,2), of now]
  have tm: "reconnectTimer ?s =
           (if connectionAttempts ?s < maxConnectionAttempts ?s
            then Some \<lparr>rt_delay = reconnectDelay ?s, rt_due = now + reconnectDelay s\<rparr>
            else None)"
    using h by simp
  have sd: "\<not> isShuttingDown ?s" using h by simp
  have le: "maxConnectionAttempts ?s - connectionAttempts ?s \<le> n"
    using h assms(3,4) by simp
  have "reconnect_delays n now ?s =
           replicate (min n (maxConnectionAttempts ?s - connectionAttempts ?s))
             (reconnectDelay ?s)"
    by (rule delays_constant[OF sd tm])
  moreover have "min n (maxConnectionAttempts ?s - connectionAttempts ?s)
                   = 10 - connectionAttempts s"
    using h assms(3,4) by simp
  ultimately have d: "reconnect_delays n now ?s
                        = replicate (10 - connectionAttempts s) (reconnectDelay s)"
    using h by simp
  from final_stops[OF sd tm le, of now] h d show ?thesis by simp
qed

theorem C6_witness:
  "\<not> isShuttingDown gps_connected \<and> reconnectTimer gps_connected = None
   \<and> maxConnectionAttempts gps_connected = 10 \<and> isConnected gps_connected
   \<and> \<not> isConnected (handleDisconnect 0 gps_connected)
   \<and> reconnect_delays 12 0 (handleDisconnect 0 gps_connected) = replicate 10 5000
   \<and> reconnectTimer (reconnect_final 12 0 (handleDisconnect 0 gps_connected)) = None"
  using C6_reconnect_fixed_delay[of gps_connected 12 0] connected_facts
  by simp

section \<open>Persisting and reloading the last known location\<close>

lemma saved_content:
  "savePersistedLocation True (updateLastKnownLocation now s) f =
     Content (JObj
       [(''latitude'', stringify_prop (num_or_null (latitude (currentData s)))),
        (''longitude'', stringify_prop (num_or_null (longitude (currentData s)))),
        (''altitude'', stringify_prop (num_or_null (altitude (currentData s)))),
        (''accuracy'', stringify_prop (num_or_null (accuracy (currentData s)))),
        (''satellites'', JNum (of_int (satellites (currentData s)))),
        (''hdop'', stringify_prop (num_or_null (hdop (currentData s)))),
        (''signalStrength'', JStr (signal_name (signalStrength s))),
        (''timestamp'', JIso now)])"
  by (simp add: savePersistedLocation_def updateLastKnownLocation_def stringify_prop_def)

lemma json_of_num: "Json (stringify_prop (num_or_null x)) = num_or_null x"
  by (cases x) (simp_all add: stringify_prop_def num_or_null_def)

text \<open>
  A location whose latitude and longitude are both non-zero comes back from the file as
  the same object, time stamp included, whatever the date parser does with other texts.
\<close>

lemma reload_of_nonzero:
  assumes "latitude (currentData s) = Some lat" "lat \<noteq> 0"
    and "longitude (currentData s) = Some lon" "lon \<noteq> 0"
  shows "lastKnownLocation
           (loadPersistedLocation date_parse
              (savePersistedLocation True (updateLastKnownLocation now s) f) s0)
         = lastKnownLocation (updateLastKnownLocation now s)"
  unfolding saved_content
  using assms
  by (simp add: loadPersistedLocation_def truthy_json_def new_Date_def json_of_num
       updateLastKnownLocation_def) (simp add: stringify_prop_def num_or_null_def)

lemma reload_of_nonzero_position:
  assumes "latitude (currentData s) = Some lat" "lat \<noteq> 0"
    and "longitude (currentData s) = Some lon" "lon \<noteq> 0"
  shows "map_option (get_prop ''latitude'') (lastKnownLocation
           (loadPersistedLocation date_parse
              (savePersistedLocation True (updateLastKnownLocation now s) f) s0))
         = Some (Some (Json (JNum lat)))"
    and "map_option (get_prop ''longitude'') (lastKnownLocation
           (loadPersistedLocation date_parse
              (savePersistedLocation True (updateLastKnownLocation now s) f) s0))
         = Some (Some (Json (JNum lon)))"
    and "map_option (get_prop ''accuracy'') (lastKnownLocation
           (loadPersistedLocation date_parse
              (savePersistedLocation True (updateLastKnownLocation now s) f) s0))
         = Some (Some (num_or_null (accuracy (currentData s))))"
  unfolding reload_of_nonzero[OF assms]
  using assms(1,3) by (simp_all add: updateLastKnownLocation_def num_or_null_def)

lemma age_choice:
  fixes sec mins hrs days :: int
  assumes "0 \<le> sec" "0 \<le> mins" "0 \<le> hrs"
  shows "\<exists>n. age_number (if days > 0 then Age_d days else if hrs > 0 then Age_h hrs
                         else if mins > 0 then Age_m mins else Age_s sec) = Some n \<and> 0 \<le> n"
  using assms by (auto simp: age_number_def)

lemma age_of_update:
  assumes "lastKnownLocation s = lastKnownLocation (updateLastKnownLocation now s')"
  shows "getLocationAge date_parse later s =
     Some (if (later - now) div 1000 div 60 div 60 div 24 > 0
           then Age_d ((later - now) div 1000 div 60 div 60 div 24)
           else if (later - now) div 1000 div 60 div 60 > 0
           then Age_h ((later - now) div 1000 div 60 div 60)
           else if (later - now) div 1000 div 60 > 0
           then Age_m ((later - now) div 1000 div 60)
           else Age_s ((later - now) div 1000))"
  using assms
  by (simp add: getLocationAge_def updateLastKnownLocation_def truthy_val_def time_of_def
      Let_def)

text \<open>
  The age of a reloaded location is non-negative when the clock is not behind the time
  stamp of the location. When the clock is behind (a clock that was set back, or a
  device that starts without the time), \<^verbatim>\<open>getLocationAge\<close> returns a negative number
  of seconds.
\<close>

lemma age_nonneg:
  assumes "lastKnownLocation s = lastKnownLocation (updateLastKnownLocation now s')"
    and "now \<le> later"
  shows "\<exists>a n. getLocationAge date_parse later s = Some a \<and> age_number a = Some n \<and> 0 \<le> n"
proof -
  have x: "0 \<le> later - now" using assms(2) by simp
  have d: "0 \<le> (later - now) div 1000"
    using x by (simp only: pos_imp_zdiv_nonneg_iff[of 1000, simplified])
  have m: "0 \<le> (later - now) div 1000 div 60"
    using d by (simp only: pos_imp_zdiv_nonneg_iff[of 60, simplified])
  have h: "0 \<le> (later - now) div 1000 div 60 div 60"
    using m by (simp only: pos_imp_zdiv_nonneg_iff[of 60, simplified])
  from age_choice[OF d m h] show ?thesis
    unfolding age_of_update[OF assms(1)] by blast
qed

lemma age_negative_when_clock_behind:
  "getLocationAge date_parse 500
     (loadPersistedLocation date_parse
        (savePersistedLocation True at_home NoFile) new_GPSAsync)
   = Some (Age_s (- 1))"
  by (simp add: at_home_def gga_defs gga_good_def savePersistedLocation_def
      loadPersistedLocation_def truthy_json_def stringify_prop_def num_or_null_def
      new_Date_def getLocationAge_def truthy_val_def time_of_def signal_name_def Let_def)

lemma equator_promoted:
  "lastKnownLocation at_equator =
     Some [(''latitude'', Json (JNum 0)), (''longitude'', Json (JNum 6.5)),
           (''altitude'', Json (JNum 12)), (''accuracy'', Json (JNum 4)),
           (''satellites'', Json (JNum 7)), (''hdop'', Json (JNum 1.2)),
           (''signalStrength'', Json (JStr ''good'')), (''timestamp'', DateV (Some 1000))]"
  by (simp add: at_equator_def gga_defs gga_equator_def gga_good_def num_or_null_def
      signal_name_def)

text \<open>
  Claim C10 fails for a location on the equator (or on the prime meridian). A good fix
  at latitude 0 passes the good-fix gate (\<^verbatim>\<open>parseGGA\<close> tests \<^verbatim>\<open>latitude !== null\<close>),
  becomes the last known location and is written to the file with all its properties.
  \<^verbatim>\<open>loadPersistedLocation\<close> validates the parsed object with
  \<^verbatim>\<open>parsed.latitude && parsed.longitude\<close>; 0 is falsy, so a fresh service that loads
  this file has no last known location.
\<close>

theorem C10_equator_fix_not_reloaded:
  "lastKnownLocation at_equator =
     Some [(''latitude'', Json (JNum 0)), (''longitude'', Json (JNum 6.5)),
           (''altitude'', Json (JNum 12)), (''accuracy'', Json (JNum 4)),
           (''satellites'', Json (JNum 7)), (''hdop'', Json (JNum 1.2)),
           (''signalStrength'', Json (JStr ''good'')), (''timestamp'', DateV (Some 1000))]
   \<and> pendingSaves at_equator = 1
   \<and> savePersistedLocation True at_equator NoFile =
       Content (JObj
         [(''latitude'', JNum 0), (''longitude'', JNum 6.5), (''altitude'', JNum 12),
          (''accuracy'', JNum 4), (''satellites'', JNum 7), (''hdop'', JNum 1.2),
          (''signalStrength'', JStr ''good''), (''timestamp'', JIso 1000)])
   \<and> lastKnownLocation
        (loadPersistedLocation date_parse
           (savePersistedLocation True at_equator NoFile) new_GPSAsync)
       = None"
proof -
  have "pendingSaves at_equator = 1"
    by (simp add: at_equator_def gga_defs gga_equator_def gga_good_def)
  moreover have "lastKnownLocation new_GPSAsync = None" by (simp add: new_GPSAsync_def)
  ultimately show ?thesis using equator_promoted
    by (simp add: savePersistedLocation_def loadPersistedLocation_def truthy_json_def
        stringify_prop_def)
qed

section \<open>The write queue of a pin\<close>

text \<open>
  The properties of the queue are proved for every run of the event loop from a new
  queue: every list of calls of \<^verbatim>\<open>enqueue\<close>, passages of time, timers firing (late,
  on time or early) and hardware writes settling. \<^verbatim>\<open>clearAll\<close> is not among the
  events, and the clock does not go back.
\<close>

lemma proj_simps [simp]:
  "proj p [] = []"
  "proj p (e # tr) = (if pin_of e = p then e # proj p tr else proj p tr)"
  by (simp_all add: proj_def)

lemma submitted_proj: "submitted p (proj p tr) = submitted p tr"
  by (induction p tr rule: submitted.induct) simp_all

lemma settled_proj: "settled p (proj p tr) = settled p tr"
  by (induction p tr rule: settled.induct) simp_all

lemma in_flight_proj: "in_flight p (proj p tr) = in_flight p tr"
  by (induction p tr rule: in_flight.induct) simp_all

lemma last_success_proj: "last_success p (proj p tr) = last_success p tr"
  by (induction p tr rule: last_success.induct) simp_all

lemma serial_proj: "serial p (proj p tr) = serial p tr"
  by (induction p tr rule: serial.induct) (simp_all add: in_flight_proj)

lemma spaced_proj: "spaced d p (proj p tr) = spaced d p tr"
  by (induction d p tr rule: spaced.induct) (simp_all add: last_success_proj)

lemma head_writes_proj: "head_writes p (proj p tr) = head_writes p tr"
  by (induction p tr rule: head_writes.induct) (simp_all add: settled_proj submitted_proj)

lemma writes_proj: "writes p (proj p tr) = writes p tr"
  by (induction p tr rule: writes.induct) simp_all

lemma at_ok_proj: "at_ok p (proj p tr) i a = at_ok p tr i a"
  by (cases a) (simp_all add: in_flight_proj after_last_def last_success_proj)

lemma inv_view:
  assumes "view p s' = view p s"
  shows "queue_inv j p s' = queue_inv j p s"
proof -
  have e: "queue_of s' p = queue_of s p" "processing s' p = processing s p"
    "lastOperation s' p = lastOperation s p" "workers s' p = workers s p"
    "minDelay s' = minDelay s" "proj p (trace s') = proj p (trace s)"
    using assms by (simp_all add: view_def)
  have t: "f p (trace s') = f p (trace s)"
    if "\<And>tr. f p (proj p tr) = f p tr" for f :: "nat \<Rightarrow> log_event list \<Rightarrow> 'a"
    using that[of "trace s'"] that[of "trace s"] e(6) by simp
  have a: "at_ok p (trace s') i a = at_ok p (trace s) i a" for i a
    using at_ok_proj[of p "trace s'" i a] at_ok_proj[of p "trace s" i a] e(6) by simp
  show ?thesis
    unfolding queue_inv_def worker_ok_def trace_ok_def e a
      t[of settled, OF settled_proj] t[of submitted, OF submitted_proj]
      t[of in_flight, OF in_flight_proj] t[of serial, OF serial_proj]
      t[of "spaced (100 - int j)", OF spaced_proj] t[of head_writes, OF head_writes_proj]
      t[of last_success, OF last_success_proj]
    by (rule refl)
qed

lemma queue_of_upd [simp]:
  "queue_of (s\<lparr>queues := (queues s)(q := x)\<rparr>) p =
     (if p = q then (case x of None \<Rightarrow> [] | Some l \<Rightarrow> l) else queue_of s p)"
  by (simp add: queue_of_def)

lemma view_loop_head_other:
  "q \<noteq> p \<Longrightarrow> view p (fst (loop_head q s)) = view p s"
  by (simp add: view_def loop_head_def start_exec_def emit_def queue_of_def Let_def
      split: list.splits)


lemma view_set_worker_other:
  "q \<noteq> p \<Longrightarrow> view p (set_worker q k r) = view p (fst r)"
  by (cases r; cases "snd r") (simp_all add: set_worker_def view_def queue_of_def)

lemma view_emit_other:
  "pin_of e \<noteq> p \<Longrightarrow> view p (emit e s) = view p s"
  by (simp add: view_def emit_def queue_of_def)

lemma view_shift_other:
  "q \<noteq> p \<Longrightarrow> view p (shift q s) = view p s"
  by (simp add: view_def shift_def queue_of_def split: option.splits)

lemma view_exec_succeeded_other:
  "q \<noteq> p \<Longrightarrow> view p (fst (exec_succeeded q i s)) = view p s"
  by (simp add: exec_succeeded_def Let_def view_loop_head_other view_shift_other
      view_emit_other)
     (simp add: view_def emit_def queue_of_def)

lemma view_exec_failed_other:
  "q \<noteq> p \<Longrightarrow> view p (fst (exec_failed q i s)) = view p s"
  by (simp add: exec_failed_def Let_def view_loop_head_other view_shift_other
      view_emit_other split: option.splits)
     (simp add: view_def emit_def queue_of_def)

lemma view_enqueue_other:
  "q \<noteq> p \<Longrightarrow> view p (enqueue q v t s) = view p s"
proof -
  assume qp: "q \<noteq> p"
  define s3 where "s3 = emit (Enqueued q (next_op s) (clock s))
      (s\<lparr>ops := (ops s)(next_op s := Some \<lparr>op_pin = q, op_val = v, op_timeout = t,
                                            retries = 0, maxRetries = 2\<rparr>),
         next_op := Suc (next_op s),
         queues := (queues s)(q := Some (queue_of s q @ [next_op s]))\<rparr>)"
  have v3: "view p s3 = view p s"
    using qp by (simp add: s3_def view_def emit_def queue_of_def)
  have e: "enqueue q v t s = (if processing s3 q = Some True then s3 else processQueue q s3)"
    by (simp add: enqueue_def Let_def s3_def queue_of_def emit_def)
  have "view p (processQueue q s3) = view p s3"
  proof -
    let ?s = "s3\<lparr>processing := (processing s3)(q := Some True)\<rparr>"
    have a: "view p ?s = view p s3" using qp by (simp add: view_def queue_of_def)
    have b: "view p (fst (loop_head q ?s)) = view p ?s" by (rule view_loop_head_other[OF qp])
    show ?thesis
      using a b qp
      by (cases "loop_head q ?s"; cases "snd (loop_head q ?s)")
         (simp_all add: processQueue_def view_def queue_of_def)
  qed
  then show ?thesis using v3 e by simp
qed

lemma view_timer_other:
  "q \<noteq> p \<Longrightarrow> view p (timer_fires q k e s) = view p s"
  by (simp add: timer_fires_def Let_def view_set_worker_other view_loop_head_other
      start_exec_def view_emit_other split: await_point.splits)

lemma view_exec_done_other:
  "q \<noteq> p \<Longrightarrow> view p (exec_done q k ok s) = view p s"
  by (simp add: exec_done_def Let_def view_set_worker_other view_exec_succeeded_other
      view_exec_failed_other split: await_point.splits)

lemma view_tick: "view p (s\<lparr>clock := clock s + int d\<rparr>) = view p s"
  by (simp add: view_def queue_of_def)


lemma head_of_pending:
  assumes "settled p tr @ q = submitted p tr" "take 1 q = [i]"
  shows "take 1 (drop (length (settled p tr)) (submitted p tr)) = [i]"
  using assms(2) unfolding assms(1)[symmetric] by simp

lemma start_exec_ok:
  assumes "trace_ok j p s" "in_flight p (trace s) = None" "processing s p = Some True"
    and "take 1 (queue_of s p) = [i]" "after_last (100 - int j) p (trace s) (clock s)"
  shows "out_ok j p (start_exec p i s)" "workers (fst (start_exec p i s)) = workers s"
proof -
  have h: "take 1 (drop (length (settled p (trace s))) (submitted p (trace s))) = [i]"
    using assms(1,4) by (intro head_of_pending) (simp_all add: trace_ok_def)
  show "out_ok j p (start_exec p i s)"
    using assms h
    by (simp add: out_ok_def start_exec_def emit_def trace_ok_def queue_of_def after_last_def)
  show "workers (fst (start_exec p i s)) = workers s"
    by (simp add: start_exec_def emit_def)
qed

lemma loop_head_ok:
  assumes "trace_ok j p s" "in_flight p (trace s) = None" "processing s p = Some True"
  shows "out_ok j p (loop_head p s)" "workers (fst (loop_head p s)) = workers s"
proof -
  show "workers (fst (loop_head p s)) = workers s"
    by (simp add: loop_head_def start_exec_def emit_def Let_def split: list.splits)
  show "out_ok j p (loop_head p s)"
  proof (cases "queue_of s p")
    case Nil
    then show ?thesis using assms
      by (simp add: loop_head_def out_ok_def trace_ok_def queue_of_def)
  next
    case (Cons i rest)
    let ?lastOp = "case lastOperation s p of None \<Rightarrow> 0 | Some t \<Rightarrow> t"
    have md: "minDelay s = 100" and lo: "lastOperation s p = last_success p (trace s)"
      using assms(1) by (simp_all add: trace_ok_def)
    show ?thesis
    proof (cases "clock s - ?lastOp < 100")
      case True
      then have "loop_head p s =
          (s, Parked \<lparr>w_op = i, w_at = AwaitDelay (clock s + (100 - (clock s - ?lastOp)))\<rparr>)"
        using Cons md by (simp add: loop_head_def Let_def)
      moreover have "after_last 100 p (trace s) (clock s + (100 - (clock s - ?lastOp)))"
        unfolding after_last_def lo[symmetric] by (simp split: option.splits)
      ultimately show ?thesis using assms Cons by (simp add: out_ok_def)
    next
      case False
      then have e: "loop_head p s = start_exec p i s"
        using Cons md by (simp add: loop_head_def Let_def)
      have "after_last (100 - int j) p (trace s) (clock s)"
        using False unfolding after_last_def lo[symmetric] by (simp split: option.splits)
      then show ?thesis unfolding e using assms Cons by (intro start_exec_ok) simp_all
    qed
  qed
qed

lemma exec_succeeded_ok:
  assumes "trace_ok j p s" "in_flight p (trace s) = Some i" "processing s p = Some True"
    and "take 1 (queue_of s p) = [i]"
  shows "out_ok j p (exec_succeeded p i s)" "workers (fst (exec_succeeded p i s)) = workers s"
proof -
  let ?s4 = "shift p (emit (Resolved p i (clock s))
       ((emit (WriteEnd p i (clock s) True) s)
          \<lparr>lastOperation := (lastOperation s)(p := Some (clock s))\<rparr>))"
  have e: "exec_succeeded p i s = loop_head p ?s4"
    by (simp add: exec_succeeded_def Let_def emit_def)
  obtain rest where q: "queue_of s p = i # rest"
    using assms(4) by (cases "queue_of s p") simp_all
  then have qs: "queues s p = Some (i # rest)"
    by (simp add: queue_of_def split: option.splits)
  have q4: "queue_of ?s4 p = rest" using qs by (simp add: shift_def emit_def queue_of_def)
  have t4: "trace ?s4 = Resolved p i (clock s) # WriteEnd p i (clock s) True # trace s"
    using qs by (simp add: shift_def emit_def)
  have f4: "processing ?s4 p = Some True" "minDelay ?s4 = minDelay s"
    "lastOperation ?s4 p = Some (clock s)" "workers ?s4 = workers s"
    using qs assms(3) by (simp_all add: shift_def emit_def)
  have tok: "trace_ok j p ?s4"
    using assms(1,2) q unfolding trace_ok_def q4 t4 f4 by auto
  have fl: "in_flight p (trace ?s4) = None" unfolding t4 by simp
  show "out_ok j p (exec_succeeded p i s)"
    unfolding e by (rule loop_head_ok(1)[OF tok fl f4(1)])
  show "workers (fst (exec_succeeded p i s)) = workers s"
    unfolding e using loop_head_ok(2)[OF tok fl f4(1)] f4(4) by simp
qed

lemma exec_failed_ok:
  assumes "trace_ok j p s" "in_flight p (trace s) = Some i" "processing s p = Some True"
    and "take 1 (queue_of s p) = [i]"
  shows "out_ok j p (exec_failed p i s)" "workers (fst (exec_failed p i s)) = workers s"
proof -
  obtain rest where q: "queue_of s p = i # rest"
    using assms(4) by (cases "queue_of s p") simp_all
  then have qs: "queues s p = Some (i # rest)"
    by (simp add: queue_of_def split: option.splits)
  show "out_ok j p (exec_failed p i s)" "workers (fst (exec_failed p i s)) = workers s"
  proof (atomize (full), cases "ops s i")
    case None
    then show "out_ok j p (exec_failed p i s) \<and> workers (fst (exec_failed p i s)) = workers s"
      using assms by (simp add: exec_failed_def out_ok_def)
  next
    case (Some opn)
    let ?s2 = "(emit (WriteEnd p i (clock s) False) s)
                 \<lparr>ops := (ops s)(i := Some (opn\<lparr>retries := retries opn + 1\<rparr>))\<rparr>"
    have t2: "trace ?s2 = WriteEnd p i (clock s) False # trace s" by (simp add: emit_def)
    have f2: "processing ?s2 p = Some True" "minDelay ?s2 = minDelay s"
      "lastOperation ?s2 p = lastOperation s p" "workers ?s2 = workers s"
      "queue_of ?s2 p = i # rest" "queues ?s2 p = Some (i # rest)" "clock ?s2 = clock s"
      using assms(3) q qs by (simp_all add: emit_def queue_of_def)
    have tok2: "trace_ok j p ?s2"
      using assms(1,2) unfolding trace_ok_def t2 f2 q by auto
    show "out_ok j p (exec_failed p i s) \<and> workers (fst (exec_failed p i s)) = workers s"
    proof (cases "retries opn + 1 < maxRetries opn")
      case True
      then have e: "exec_failed p i s =
          (?s2, Parked \<lparr>w_op = i, w_at = AwaitBackoff (clock s + 100)\<rparr>)"
        using Some by (simp add: exec_failed_def Let_def emit_def)
      show ?thesis unfolding e using tok2 f2 t2 by (simp add: out_ok_def)
    next
      case False
      let ?s3 = "shift p (emit (Rejected p i (clock s)) ?s2)"
      have e: "exec_failed p i s = loop_head p ?s3"
        using Some False by (simp add: exec_failed_def Let_def emit_def)
      have t3: "trace ?s3 = Rejected p i (clock s) # WriteEnd p i (clock s) False # trace s"
        using qs by (simp add: shift_def emit_def)
      have f3: "processing ?s3 p = Some True" "minDelay ?s3 = minDelay s"
        "lastOperation ?s3 p = lastOperation s p" "workers ?s3 = workers s"
        "queue_of ?s3 p = rest"
        using assms(3) qs by (simp_all add: shift_def emit_def queue_of_def)
      have tok3: "trace_ok j p ?s3"
        using assms(1,2) q unfolding trace_ok_def t3 f3 by auto
      have fl: "in_flight p (trace ?s3) = None" unfolding t3 by simp
      show ?thesis
        unfolding e using loop_head_ok[OF tok3 fl f3(1)] f3(4) by simp
    qed
  qed
qed


lemma inv_set_worker:
  assumes "out_ok j p r" "workers (fst r) p = [w0]"
  shows "queue_inv j p (set_worker p 0 r)"
proof (cases r)
  case (Pair s' out)
  show ?thesis
  proof (cases out)
    case (Parked w)
    then show ?thesis using assms Pair
      by (simp add: set_worker_def queue_inv_def worker_ok_def trace_ok_def out_ok_def
          queue_of_def)
  next
    case Finished
    then show ?thesis using assms Pair
      by (simp add: set_worker_def queue_inv_def worker_ok_def trace_ok_def out_ok_def
          queue_of_def)
  qed
qed

lemma inv_one_worker:
  assumes "queue_inv j p s" "k < length (workers s p)"
  shows "k = 0" "\<exists>w. workers s p = [w]"
  using assms by (auto simp: queue_inv_def worker_ok_def split: list.splits)

lemma inv_timer_same:
  assumes "queue_inv j p s" and ej: "e \<le> j"
  shows "queue_inv j p (timer_fires p k e s)"
proof (cases "k < length (workers s p)")
  case False
  then show ?thesis using assms by (simp add: timer_fires_def)
next
  case True
  from inv_one_worker[OF assms(1) True] obtain w where k: "k = 0" and w: "workers s p = [w]"
    by blast
  have tok: "trace_ok j p s" and pr: "processing s p = Some True"
    and hd: "take 1 (queue_of s p) = [w_op w]" and at: "at_ok p (trace s) (w_op w) (w_at w)"
    using assms w by (simp_all add: queue_inv_def worker_ok_def)
  show ?thesis
  proof (cases "w_at w")
    case AwaitExec
    then show ?thesis using assms w k by (simp add: timer_fires_def)
  next
    case (AwaitDelay due)
    show ?thesis
    proof (cases "due - int e \<le> clock s")
      case False
      then show ?thesis using assms w k AwaitDelay by (simp add: timer_fires_def)
    next
      case True
      have fl: "in_flight p (trace s) = None" and al: "after_last 100 p (trace s) due"
        using at AwaitDelay by simp_all
      have al': "after_last (100 - int j) p (trace s) (clock s)"
        using al True ej by (simp add: after_last_def split: option.splits)
      have "queue_inv j p (set_worker p 0 (start_exec p (w_op w) s))"
        using start_exec_ok[OF tok fl pr hd al'] w by (intro inv_set_worker) simp_all
      then show ?thesis using w k AwaitDelay True by (simp add: timer_fires_def)
    qed
  next
    case (AwaitBackoff due)
    show ?thesis
    proof (cases "due - int e \<le> clock s")
      case False
      then show ?thesis using assms w k AwaitBackoff by (simp add: timer_fires_def)
    next
      case True
      have fl: "in_flight p (trace s) = None" using at AwaitBackoff by simp
      have "queue_inv j p (set_worker p 0 (loop_head p s))"
        using loop_head_ok[OF tok fl pr] w by (intro inv_set_worker) simp_all
      then show ?thesis using w k AwaitBackoff True by (simp add: timer_fires_def)
    qed
  qed
qed

lemma inv_exec_same:
  assumes "queue_inv j p s"
  shows "queue_inv j p (exec_done p k ok s)"
proof (cases "k < length (workers s p)")
  case False
  then show ?thesis using assms by (simp add: exec_done_def)
next
  case True
  from inv_one_worker[OF assms(1) True] obtain w where k: "k = 0" and w: "workers s p = [w]"
    by blast
  have tok: "trace_ok j p s" and pr: "processing s p = Some True"
    and hd: "take 1 (queue_of s p) = [w_op w]" and at: "at_ok p (trace s) (w_op w) (w_at w)"
    using assms w by (simp_all add: queue_inv_def worker_ok_def)
  show ?thesis
  proof (cases "w_at w")
    case AwaitExec
    then have fl: "in_flight p (trace s) = Some (w_op w)" using at by simp
    have "queue_inv j p (set_worker p 0 (exec_succeeded p (w_op w) s))"
      using exec_succeeded_ok[OF tok fl pr hd] w by (intro inv_set_worker) simp_all
    moreover have "queue_inv j p (set_worker p 0 (exec_failed p (w_op w) s))"
      using exec_failed_ok[OF tok fl pr hd] w by (intro inv_set_worker) simp_all
    ultimately show ?thesis using w k AwaitExec by (simp add: exec_done_def)
  next
    case (AwaitDelay due)
    then show ?thesis using assms w k by (simp add: exec_done_def)
  next
    case (AwaitBackoff due)
    then show ?thesis using assms w k by (simp add: exec_done_def)
  qed
qed

lemma inv_enqueue_same:
  assumes "queue_inv j p s"
  shows "queue_inv j p (enqueue p v t s)"
proof -
  define s3 where "s3 = emit (Enqueued p (next_op s) (clock s))
      (s\<lparr>ops := (ops s)(next_op s := Some \<lparr>op_pin = p, op_val = v, op_timeout = t,
                                            retries = 0, maxRetries = 2\<rparr>),
         next_op := Suc (next_op s),
         queues := (queues s)(p := Some (queue_of s p @ [next_op s]))\<rparr>)"
  have e: "enqueue p v t s = (if processing s3 p = Some True then s3 else processQueue p s3)"
    by (simp add: enqueue_def Let_def s3_def queue_of_def emit_def)
  have f3: "queue_of s3 p = queue_of s p @ [next_op s]" "processing s3 = processing s"
    "lastOperation s3 = lastOperation s" "workers s3 = workers s" "minDelay s3 = minDelay s"
    "trace s3 = Enqueued p (next_op s) (clock s) # trace s"
    by (simp_all add: s3_def emit_def queue_of_def)
  have tok: "trace_ok j p s" and wok: "worker_ok p s"
    using assms by (simp_all add: queue_inv_def)
  have tok3: "trace_ok j p s3"
    using tok unfolding trace_ok_def f3 by auto
  show ?thesis
  proof (cases "processing s p = Some True")
    case True
    then obtain w where w: "workers s p = [w]"
      using wok by (auto simp: worker_ok_def split: list.splits)
    have "take 1 (queue_of s p @ [next_op s]) = take 1 (queue_of s p)"
      using wok w by (cases "queue_of s p") (simp_all add: worker_ok_def)
    then have "worker_ok p s3"
      using wok w unfolding worker_ok_def f3
      by (cases "w_at w") (simp_all add: after_last_def)
    then show ?thesis using tok3 True e f3 by (simp add: queue_inv_def)
  next
    case False
    then have w: "workers s p = []" and fl: "in_flight p (trace s) = None"
      using wok by (auto simp: worker_ok_def split: list.splits)
    let ?s = "s3\<lparr>processing := (processing s3)(p := Some True)\<rparr>"
    have tok': "trace_ok j p ?s" using tok3 by (simp add: trace_ok_def queue_of_def)
    have fl': "in_flight p (trace ?s) = None" using fl f3 by simp
    have pr': "processing ?s p = Some True" by simp
    note lh = loop_head_ok[OF tok' fl' pr']
    have ws: "workers (fst (loop_head p ?s)) p = []" using lh(2) w f3 by simp
    have "queue_inv j p (processQueue p s3)"
    proof (cases "loop_head p ?s")
      case (Pair s' out)
      show ?thesis
      proof (cases out)
        case (Parked w')
        then show ?thesis using lh(1) ws Pair
          by (simp add: processQueue_def queue_inv_def worker_ok_def trace_ok_def out_ok_def
              queue_of_def)
      next
        case Finished
        then show ?thesis using lh(1) ws Pair
          by (simp add: processQueue_def queue_inv_def worker_ok_def trace_ok_def out_ok_def
              queue_of_def)
      qed
    qed
    then show ?thesis using False e f3 by simp
  qed
qed

lemma inv_init: "queue_inv j p (new_GPIOQueue t0)"
  by (simp add: queue_inv_def worker_ok_def trace_ok_def new_GPIOQueue_def queue_of_def)

lemma inv_step:
  assumes "queue_inv j p s" and "earliness ev \<le> j"
  shows "queue_inv j p (step s ev)"
proof (cases ev)
  case (Enqueue q v t)
  show ?thesis
  proof (cases "q = p")
    case True
    then show ?thesis using Enqueue inv_enqueue_same[OF assms(1)] by simp
  next
    case False
    then show ?thesis using Enqueue assms(1) inv_view[OF view_enqueue_other[OF False]] by simp
  qed
next
  case (Tick d)
  then show ?thesis using assms(1) inv_view[OF view_tick] by simp
next
  case (TimerFires q k e)
  then have ej: "e \<le> j" using assms(2) by simp
  show ?thesis
  proof (cases "q = p")
    case True
    then show ?thesis using TimerFires inv_timer_same[OF assms(1) ej] by simp
  next
    case False
    then show ?thesis
      using TimerFires assms(1) inv_view[OF view_timer_other[OF False]] by simp
  qed
next
  case (ExecDone q k ok)
  show ?thesis
  proof (cases "q = p")
    case True
    then show ?thesis using ExecDone inv_exec_same[OF assms(1)] by simp
  next
    case False
    then show ?thesis
      using ExecDone assms(1) inv_view[OF view_exec_done_other[OF False]] by simp
  qed
qed

lemma inv_foldl:
  "queue_inv j p s \<Longrightarrow> max_early evs \<le> j \<Longrightarrow> queue_inv j p (foldl step s evs)"
  by (induction evs arbitrary: s) (simp_all add: inv_step max_early_def)

lemma inv_run: "queue_inv (max_early evs) p (run (new_GPIOQueue t0) evs)"
  unfolding run_def by (rule inv_foldl[OF inv_init]) simp

lemmas run_defs = run_def new_GPIOQueue_def enqueue_def processQueue_def loop_head_def
  start_exec_def exec_done_def exec_succeeded_def exec_failed_def timer_fires_def
  set_worker_def shift_def emit_def queue_of_def Let_def

text \<open>
  Claim C2 as stated fails in its spacing. \<^verbatim>\<open>processQueue\<close> waits
  \<^verbatim>\<open>minDelay - timeSinceLast\<close> with \<^verbatim>\<open>setTimeout\<close> and then starts the write without
  reading \<^verbatim>\<open>Date.now()\<close> again. In this run the first write ends at 1000020 ms, the
  timer set for 100 ms fires 1 ms early on that clock, and the second write starts at
  1000119 ms, 99 ms after the end of the first.
\<close>

theorem C2_counterexample:
  "trace (run (new_GPIOQueue 1000000) early_timer) =
     [Resolved 17 1 1000144, WriteEnd 17 1 1000144 True, WriteStart 17 1 1000119,
      Resolved 17 0 1000020, WriteEnd 17 0 1000020 True,
      Enqueued 17 1 1000000, WriteStart 17 0 1000000, Enqueued 17 0 1000000]
   \<and> last_success 17
        [Resolved 17 0 1000020, WriteEnd 17 0 1000020 True,
         Enqueued 17 1 1000000, WriteStart 17 0 1000000, Enqueued 17 0 1000000]
       = Some 1000020
   \<and> \<not> spaced 100 17 (trace (run (new_GPIOQueue 1000000) early_timer))"
  by (simp add: early_timer_def run_defs)

text \<open>
  Claim C2, amended: on every pin and in every run, the operations settle in the order in
  which they were submitted (the settled ones, followed by the queue, are the submitted
  ones), every write is for the oldest operation not yet settled, at most one write of
  the pin is in flight at a time (and at most one continuation of \<^verbatim>\<open>processQueue\<close>
  exists for the pin), and every write starts at least 100 ms, less the most by which a
  timer of the run fired early, after the end of the last successful write of the pin.
  In a run whose timers are never early that is 100 ms.
\<close>

theorem C2_fifo_serial_spaced:
  "settled p (trace (run (new_GPIOQueue t0) evs)) @ queue_of (run (new_GPIOQueue t0) evs) p
     = submitted p (trace (run (new_GPIOQueue t0) evs))
   \<and> head_writes p (trace (run (new_GPIOQueue t0) evs))
   \<and> serial p (trace (run (new_GPIOQueue t0) evs))
   \<and> length (workers (run (new_GPIOQueue t0) evs) p) \<le> 1
   \<and> spaced (100 - int (max_early evs)) p (trace (run (new_GPIOQueue t0) evs))"
  using inv_run[of evs p t0]
  by (auto simp: queue_inv_def trace_ok_def worker_ok_def split: list.splits)

lemma three_ops_trace:
  "trace (run (new_GPIOQueue 1000000) three_ops) =
     [Resolved 17 2 1000305, WriteEnd 17 2 1000305 True, WriteStart 17 2 1000275,
      Resolved 17 1 1000145, WriteEnd 17 1 1000145 True, WriteStart 17 1 1000120,
      Resolved 17 0 1000020, WriteEnd 17 0 1000020 True,
      Enqueued 17 2 1000000, Enqueued 17 1 1000000,
      WriteStart 17 0 1000000, Enqueued 17 0 1000000]"
  by (simp add: three_ops_def run_defs)

lemma three_ops_on_time: "max_early three_ops = 0"
  by (simp add: three_ops_def max_early_def)

text \<open>
  The witness is the scenario of the claim with timers that are not early: three
  operations on one pin settle in the order 0, 1, 2; the second write starts 100 ms and
  the third 130 ms after the end of the write before.
\<close>

theorem C2_witness:
  "trace (run (new_GPIOQueue 1000000) three_ops) =
     [Resolved 17 2 1000305, WriteEnd 17 2 1000305 True, WriteStart 17 2 1000275,
      Resolved 17 1 1000145, WriteEnd 17 1 1000145 True, WriteStart 17 1 1000120,
      Resolved 17 0 1000020, WriteEnd 17 0 1000020 True,
      Enqueued 17 2 1000000, Enqueued 17 1 1000000,
      WriteStart 17 0 1000000, Enqueued 17 0 1000000]
   \<and> submitted 17 (trace (run (new_GPIOQueue 1000000) three_ops)) = [0, 1, 2]
   \<and> settled 17 (trace (run (new_GPIOQueue 1000000) three_ops)) = [0, 1, 2]
   \<and> queue_of (run (new_GPIOQueue 1000000) three_ops) 17 = []
   \<and> serial 17 (trace (run (new_GPIOQueue 1000000) three_ops))
   \<and> spaced 100 17 (trace (run (new_GPIOQueue 1000000) three_ops))"
  using C2_fifo_serial_spaced[of 17 1000000 three_ops]
  by (simp add: three_ops_trace three_ops_on_time)

text \<open>
  Claim C4: an operation whose write fails every time is retried twice, so that the
  write is attempted three times, before its promise is rejected. The code attempts the
  write twice: the counter \<^verbatim>\<open>retries\<close> is incremented before it is compared with
  \<^verbatim>\<open>maxRetries = 2\<close>, so the second failure already rejects the promise and removes
  the operation. The one retry is made after the 100 ms backoff.
\<close>

theorem C4_rejected_after_two_attempts:
  "trace (run (new_GPIOQueue 1000000) failing_op) =
     [Rejected 17 0 1000130, WriteEnd 17 0 1000130 False, WriteStart 17 0 1000115,
      WriteEnd 17 0 1000015 False, WriteStart 17 0 1000000, Enqueued 17 0 1000000]
   \<and> queue_of (run (new_GPIOQueue 1000000) failing_op) 17 = []
   \<and> map_option retries (ops (run (new_GPIOQueue 1000000) failing_op) 0) = Some 2
   \<and> writes 17 (trace (run (new_GPIOQueue 1000000) failing_op)) = [0, 0]"
  by (simp add: failing_op_def run_defs)

end
